theory Spec2Isabelle
  imports Main
begin

section \<open>The database migration tool (package main)\<close>

text \<open>
  The tool parses its flags, loads the configuration, opens the database connection and
  hands the command to the external library goose. Everything it calls outside its own
  file (the configuration loader, the two database drivers, the dialect query, goose
  itself and the constants of package database) is a field of the environment
  \<open>env\<close>. An error is its message, as \<open>fmt.Println(err)\<close> prints it.

  What the process does is recorded as a list of events in program order, followed by the
  exit status: leaving \<open>main\<close> by \<open>return\<close> or at its end is status 0,
  \<open>os.Exit(1)\<close> is status 1.
\<close>

type_synonym error = string

record DatabaseConfig =
  Database_Enabled :: bool
  Database_Driver :: string
  Database_Host :: string
  Database_Database :: string

record Config =
  Config_Database :: DatabaseConfig

text \<open>\<open>database.Db\<close>: only its field \<open>SQL\<close>, the handle given to goose, is used.\<close>

record 'h Db =
  SQL :: 'h

text \<open>The package-level variables set by \<open>flag.Parse\<close>.\<close>

record flags =
  configFile :: string
  defaultDataDir :: string
  migrationDir :: string
  command :: string
  args :: string

record 'h env =
  core_Copyright :: string
  database_DBPostgreSQL :: string
  database_DBSQLite :: string
  database_DBSQLite3 :: string
  conf_LoadConfig :: "string \<Rightarrow> bool \<Rightarrow> error + Config"
  dbPSQL_Connect :: "error + 'h Db"
  dbsqlite3_Connect :: "error + 'h Db"
  repository_GetSQLDialect :: string
  goose_Run :: "string \<Rightarrow> 'h \<Rightarrow> string \<Rightarrow> string \<Rightarrow> string \<Rightarrow> error option"

datatype 'h event =
    Print string
  | EvLoadConfig string bool
  | EvConnectPSQL
  | EvConnectSQLite3
  | EvGooseRun string 'h string string string
  | EvUsage

definition Println :: "string \<Rightarrow> 'h event" where
  "Println s = Print (s @ [CHR 0x0A])"

text \<open>
  \<open>openDbConnection\<close>: the connection attempts made, and the error or the new value of
  the global \<open>dbConn\<close>.
\<close>

definition openDbConnection :: "'h env \<Rightarrow> string \<Rightarrow> 'h event list \<times> (error + 'h Db)" where
  "openDbConnection e driver =
     (if driver = database_DBPostgreSQL e then
        (case dbPSQL_Connect e of
           Inl err \<Rightarrow> ([EvConnectPSQL],
             Inl (''database failed to connect: '' @ err @
                  '', some features that utilise a database will be unavailable''))
         | Inr db \<Rightarrow> ([EvConnectPSQL], Inr db))
      else if driver = database_DBSQLite e \<or> driver = database_DBSQLite3 e then
        (case dbsqlite3_Connect e of
           Inl err \<Rightarrow> ([EvConnectSQLite3],
             Inl (''database failed to connect: '' @ err @
                  '', some features that utilise a database will be unavailable''))
         | Inr db \<Rightarrow> ([EvConnectSQLite3], Inr db))
      else ([], Inl ''no connection established''))"

definition banner :: "'h env \<Rightarrow> 'h event list" where
  "banner e =
     [Println ''GoCryptoTrader database migration tool'',
      Println (core_Copyright e),
      Println '''']"

definition main :: "'h env \<Rightarrow> flags \<Rightarrow> 'h event list \<times> int" where
  "main e fl =
     (let out0 = banner e @ [EvLoadConfig (configFile fl) True] in
      case conf_LoadConfig e (configFile fl) True of
        Inl err \<Rightarrow> (out0 @ [Println err], 1)
      | Inr conf \<Rightarrow>
          if \<not> Database_Enabled (Config_Database conf) then
            (out0 @ [Println ''Database support is disabled''], 1)
          else
            (case openDbConnection e (Database_Driver (Config_Database conf)) of
               (evs, Inl err) \<Rightarrow> (out0 @ evs @ [Println err], 1)
             | (evs, Inr dbConn) \<Rightarrow>
                 (let drv = repository_GetSQLDialect e;
                      out1 = out0 @ evs @
                        [if drv = database_DBSQLite e \<or> drv = database_DBSQLite3 e
                         then Print (''Database file: '' @
                                Database_Database (Config_Database conf) @ [CHR 0x0A])
                         else Print (''Connected to: '' @
                                Database_Host (Config_Database conf) @ [CHR 0x0A])]
                  in
                  if command fl = '''' then
                    (let _ = goose_Run e ''status'' (SQL dbConn) drv (migrationDir fl) ''''
                     in (out1 @ [EvGooseRun ''status'' (SQL dbConn) drv (migrationDir fl) '''',
                                 Println '''', EvUsage], 0))
                  else
                    (case goose_Run e (command fl) (SQL dbConn) drv (migrationDir fl) (args fl) of
                       Some err \<Rightarrow>
                         (out1 @ [EvGooseRun (command fl) (SQL dbConn) drv
                                    (migrationDir fl) (args fl),
                                  Println err], 0)
                     | None \<Rightarrow>
                         (out1 @ [EvGooseRun (command fl) (SQL dbConn) drv
                                    (migrationDir fl) (args fl)], 0)))))"

text \<open>The observations the statements below are about.\<close>

definition exit_status :: "'h event list \<times> int \<Rightarrow> int" where
  "exit_status r = snd r"

definition trace :: "'h event list \<times> int \<Rightarrow> 'h event list" where
  "trace r = fst r"

fun is_connect :: "'h event \<Rightarrow> bool" where
  "is_connect EvConnectPSQL = True"
| "is_connect EvConnectSQLite3 = True"
| "is_connect _ = False"

fun is_goose :: "'h event \<Rightarrow> bool" where
  "is_goose (EvGooseRun c h d m a) = True"
| "is_goose _ = False"

definition db_interactions :: "'h event list \<Rightarrow> 'h event list" where
  "db_interactions evs = filter (\<lambda>ev. is_connect ev \<or> is_goose ev) evs"

definition goose_calls :: "'h event list \<Rightarrow> 'h event list" where
  "goose_calls evs = filter is_goose evs"

text \<open>
  The start-up of a run succeeds with configuration \<open>conf\<close> and connection \<open>db\<close>, after the
  connection attempts \<open>evs\<close>.
\<close>

definition startup_ok :: "'h env \<Rightarrow> flags \<Rightarrow> Config \<Rightarrow> 'h event list \<Rightarrow> 'h Db \<Rightarrow> bool" where
  "startup_ok e fl conf evs db \<longleftrightarrow>
     conf_LoadConfig e (configFile fl) True = Inr conf \<and>
     Database_Enabled (Config_Database conf) \<and>
     openDbConnection e (Database_Driver (Config_Database conf)) = (evs, Inr db)"

text \<open>
  A concrete environment: a PostgreSQL configuration that loads, a connection that opens,
  and a goose that knows the seven commands of the specification, fails on \<open>up\<close> with a
  script error and refuses anything else.
\<close>

definition conf0 :: Config where
  "conf0 = \<lparr>Config_Database = \<lparr>Database_Enabled = True, Database_Driver = ''postgres'',
              Database_Host = ''localhost'', Database_Database = ''gct''\<rparr>\<rparr>"

definition goose0 :: "string \<Rightarrow> nat \<Rightarrow> string \<Rightarrow> string \<Rightarrow> string \<Rightarrow> error option" where
  "goose0 c h d m a =
     (if c = ''up'' then Some ''ERROR 1 migration failed''
      else if c \<in> set [''status'', ''up-by-one'', ''up-to'', ''down'', ''down-to'', ''create'']
      then (if c = ''status'' then Some ''failed to read the version table'' else None)
      else Some (''no such command '' @ c))"

definition env0 :: "nat env" where
  "env0 = \<lparr>core_Copyright = ''(c) GoCryptoTrader'',
           database_DBPostgreSQL = ''postgres'',
           database_DBSQLite = ''sqlite'',
           database_DBSQLite3 = ''sqlite3'',
           conf_LoadConfig = (\<lambda>f d. if f = ''config.json'' then Inr conf0
                                     else Inl ''config file not found''),
           dbPSQL_Connect = Inr \<lparr>SQL = 7\<rparr>,
           dbsqlite3_Connect = Inl ''unable to open database file'',
           repository_GetSQLDialect = ''postgres'',
           goose_Run = goose0\<rparr>"

definition flags0 :: "string \<Rightarrow> string \<Rightarrow> flags" where
  "flags0 c a = \<lparr>configFile = ''config.json'', defaultDataDir = ''/data'',
                 migrationDir = ''/migrations'', command = c, args = a\<rparr>"

section \<open>The Fixer forex provider (package fixer)\<close>

text \<open>The account levels, numbered by \<open>iota\<close>, and the endpoints.\<close>

definition fixerAPIFree :: int where "fixerAPIFree = 0"
definition fixerAPIBasic :: int where "fixerAPIBasic = 1"
definition fixerAPIProfessional :: int where "fixerAPIProfessional = 2"
definition fixerAPIProfessionalPlus :: int where "fixerAPIProfessionalPlus = 3"
definition fixerAPIEnterprise :: int where "fixerAPIEnterprise = 4"

definition fixerAPI :: string where "fixerAPI = ''http://data.fixer.io/api/''"
definition fixerAPISSL :: string where "fixerAPISSL = ''https://data.fixer.io/api/''"
definition fixerAPILatest :: string where "fixerAPILatest = ''latest''"
definition fixerAPIConvert :: string where "fixerAPIConvert = ''convert''"
definition fixerAPITimeSeries :: string where "fixerAPITimeSeries = ''timeseries''"
definition fixerAPIFluctuation :: string where "fixerAPIFluctuation = ''fluctuation''"

text \<open>
  \<open>base.Settings\<close> and \<open>base.Base\<close> are declared outside the file; they are taken with
  the seven fields that \<open>Setup\<close> copies. \<open>Fixer\<close> embeds \<open>base.Base\<close>, whose fields it
  reads as its own, and adds the pointer \<open>Requester\<close> (\<open>None\<close> is \<open>nil\<close>).
  \<open>APIKeyLvl\<close> is a Go \<open>int\<close> that is only compared and copied, and
  \<open>RESTPollingDelay\<close> a \<open>time.Duration\<close> that is only copied.
\<close>

record Settings =
  Name :: string
  Enabled :: bool
  Verbose :: bool
  RESTPollingDelay :: int
  APIKey :: string
  APIKeyLvl :: int
  PrimaryProvider :: bool

record 'r Fixer = Settings +
  Requester :: "'r option"

text \<open>
  \<open>Setup\<close>: the lines logged, the error returned and the receiver afterwards.
  \<open>request_New\<close> stands for \<open>request.New\<close> applied to the name and to the constant rate
  limits and HTTP client of the source.
\<close>

definition Setup ::
  "(string \<Rightarrow> 'r) \<Rightarrow> 'r Fixer \<Rightarrow> Settings \<Rightarrow> string list \<times> error option \<times> 'r Fixer" where
  "Setup request_New f config =
     (if APIKeyLvl config < 0 \<or> APIKeyLvl config > 4 then
        ([''apikey incorrectly set in config.json for '' @ Name config @
          '', please set appropriate account levels''],
         Some ''apikey set failure'', f)
      else
        (let f = f\<lparr>APIKey := APIKey config\<rparr>;
             f = f\<lparr>APIKeyLvl := APIKeyLvl config\<rparr>;
             f = f\<lparr>Enabled := Enabled config\<rparr>;
             f = f\<lparr>Name := Name config\<rparr>;
             f = f\<lparr>RESTPollingDelay := RESTPollingDelay config\<rparr>;
             f = f\<lparr>Verbose := Verbose config\<rparr>;
             f = f\<lparr>PrimaryProvider := PrimaryProvider config\<rparr>;
             f = f\<lparr>Requester := Some (request_New (Name f))\<rparr>
         in ([], None, f)))"

text \<open>
  \<open>url.Values\<close> maps a key to its list of values: \<open>Set\<close> replaces the list, \<open>Add\<close>
  appends to it.
\<close>

type_synonym Values = "(string \<times> string list) list"

fun values_Set :: "string \<Rightarrow> string \<Rightarrow> Values \<Rightarrow> Values" where
  "values_Set k v [] = [(k, [v])]"
| "values_Set k v ((k', vs) # rest) =
     (if k' = k then (k, [v]) # rest else (k', vs) # values_Set k v rest)"

fun values_Add :: "string \<Rightarrow> string \<Rightarrow> Values \<Rightarrow> Values" where
  "values_Add k v [] = [(k, [v])]"
| "values_Add k v ((k', vs) # rest) =
     (if k' = k then (k, vs @ [v]) # rest else (k', vs) # values_Add k v rest)"

text \<open>\<open>common.JoinStrings\<close>, that is \<open>strings.Join\<close>.\<close>

fun JoinStrings :: "string list \<Rightarrow> string \<Rightarrow> string" where
  "JoinStrings [] sep = []"
| "JoinStrings [x] sep = x"
| "JoinStrings (x # y # xs) sep = x @ sep @ JoinStrings (y # xs) sep"

text \<open>
  One call of \<open>Requester.SendPayload\<close>: the method, the path, and the two flags that vary
  (the headers and the body are \<open>nil\<close>, the other two flags \<open>false\<close>).
\<close>

record http_request =
  Method :: string
  Path :: string
  AuthRequest :: bool
  VerboseRequest :: bool

text \<open>
  The network is a parameter: \<open>Encode\<close> is \<open>url.Values.Encode\<close>, and \<open>SendPayload\<close>
  gives, for the requester and the request, the error returned and the value decoded into
  \<open>result\<close>. Every operation returns first the list of requests it has sent.
\<close>

definition SendOpenHTTPRequest ::
  "(Values \<Rightarrow> string) \<Rightarrow> ('r option \<Rightarrow> http_request \<Rightarrow> error option \<times> 'a) \<Rightarrow>
   'r Fixer \<Rightarrow> string \<Rightarrow> Values \<Rightarrow> http_request list \<times> error option \<times> 'a" where
  "SendOpenHTTPRequest Encode SendPayload f endpoint v =
     (let v = values_Set ''access_key'' (APIKey f) v;
          (path, auth) =
            (if APIKeyLvl f = fixerAPIFree
             then (fixerAPI @ endpoint @ ''?'' @ Encode v, False)
             else (fixerAPISSL @ endpoint @ ''?'' @ Encode v, True));
          req = \<lparr>Method = ''GET'', Path = path, AuthRequest = auth,
                 VerboseRequest = Verbose f\<rparr>
      in case SendPayload (Requester f) req of (err, result) \<Rightarrow> ([req], err, result))"

text \<open>
  The responses, with the fields the code reads. A Go map is \<open>None\<close> when \<open>nil\<close>, and
  otherwise the list of its entries, in the order in which \<open>range\<close> visits them.
\<close>

record 'm Response =
  Success :: bool
  Error_Type :: string
  Error_Info :: string
  Rates :: "'m option"

record 'v Conversion =
  Conversion_Success :: bool
  Conversion_Error_Type :: string
  Conversion_Error_Info :: string
  Result :: 'v

definition GetLatestRates ::
  "(Values \<Rightarrow> string) \<Rightarrow>
   ('r option \<Rightarrow> http_request \<Rightarrow> error option \<times> (string \<times> 'v) list Response) \<Rightarrow>
   'r Fixer \<Rightarrow> string \<Rightarrow> string \<Rightarrow>
   http_request list \<times> (string \<times> 'v) list option \<times> error option" where
  "GetLatestRates Encode SendPayload f baseCurrency symbols =
     (let v = [];
          v = (if APIKeyLvl f > fixerAPIFree then values_Add ''base'' baseCurrency v else v);
          v = values_Add ''symbols'' symbols v
      in case SendOpenHTTPRequest Encode SendPayload f fixerAPILatest v of
           (reqs, Some err, resp) \<Rightarrow> (reqs, Rates resp, Some err)
         | (reqs, None, resp) \<Rightarrow>
             if \<not> Success resp
             then (reqs, Rates resp, Some (Error_Type resp @ Error_Info resp))
             else (reqs, Rates resp, None))"

text \<open>The entries a \<open>range\<close> loop visits: none for a \<open>nil\<close> map.\<close>

fun range_entries :: "(string \<times> 'v) list option \<Rightarrow> (string \<times> 'v) list" where
  "range_entries None = []"
| "range_entries (Some kvs) = kvs"

text \<open>\<open>m[k] = v\<close> on a map held as its list of entries.\<close>

fun map_assign :: "string \<Rightarrow> 'v \<Rightarrow> (string \<times> 'v) list \<Rightarrow> (string \<times> 'v) list" where
  "map_assign k v [] = [(k, v)]"
| "map_assign k v ((k', v') # rest) =
     (if k' = k then (k, v) # rest else (k', v') # map_assign k v rest)"

definition GetRates ::
  "(Values \<Rightarrow> string) \<Rightarrow>
   ('r option \<Rightarrow> http_request \<Rightarrow> error option \<times> (string \<times> 'v) list Response) \<Rightarrow>
   'r Fixer \<Rightarrow> string \<Rightarrow> string \<Rightarrow>
   http_request list \<times> (string \<times> 'v) list option \<times> error option" where
  "GetRates Encode SendPayload f baseCurrency symbols =
     (case GetLatestRates Encode SendPayload f baseCurrency symbols of
        (reqs, rates, Some err) \<Rightarrow> (reqs, None, Some err)
      | (reqs, rates, None) \<Rightarrow>
          (let baseCurrency = (if APIKeyLvl f = fixerAPIFree then ''EUR'' else baseCurrency);
               standardisedRates =
                 fold (\<lambda>(k, v) m. map_assign (baseCurrency @ k) v m) (range_entries rates) []
           in (reqs, Some standardisedRates, None)))"

definition ConvertCurrency ::
  "(Values \<Rightarrow> string) \<Rightarrow> ('v \<Rightarrow> string) \<Rightarrow>
   ('r option \<Rightarrow> http_request \<Rightarrow> error option \<times> 'v Conversion) \<Rightarrow>
   'r Fixer \<Rightarrow> string \<Rightarrow> string \<Rightarrow> string \<Rightarrow> 'v \<Rightarrow>
   http_request list \<times> ('v::zero) \<times> error option" where
  "ConvertCurrency Encode FormatFloat SendPayload f from to date amount =
     (if APIKeyLvl f < fixerAPIBasic then
        ([], 0, Some ''insufficient API privileges, upgrade to basic to use this function'')
      else
        (let v = [];
             v = values_Set ''from'' from v;
             v = values_Set ''to'' to v;
             v = values_Set ''amount'' (FormatFloat amount) v;
             v = values_Set ''date'' date v
         in case SendOpenHTTPRequest Encode SendPayload f fixerAPIConvert v of
              (reqs, Some err, resp) \<Rightarrow> (reqs, Result resp, Some err)
            | (reqs, None, resp) \<Rightarrow>
                if \<not> Conversion_Success resp
                then (reqs, Result resp,
                      Some (Conversion_Error_Type resp @ Conversion_Error_Info resp))
                else (reqs, Result resp, None)))"

definition GetTimeSeriesData ::
  "(Values \<Rightarrow> string) \<Rightarrow>
   ('r option \<Rightarrow> http_request \<Rightarrow> error option \<times> 'm Response) \<Rightarrow>
   'r Fixer \<Rightarrow> string \<Rightarrow> string \<Rightarrow> string \<Rightarrow> string list \<Rightarrow>
   http_request list \<times> 'm option \<times> error option" where
  "GetTimeSeriesData Encode SendPayload f startDate endDate baseCurrency symbols =
     (if APIKeyLvl f < fixerAPIProfessional then
        ([], None,
         Some ''insufficient API privileges, upgrade to professional to use this function'')
      else
        (let v = [];
             v = values_Set ''start_date'' startDate v;
             v = values_Set ''end_date'' endDate v;
             v = values_Set ''base'' baseCurrency v;
             v = values_Set ''symbols'' (JoinStrings symbols '','') v
         in case SendOpenHTTPRequest Encode SendPayload f fixerAPITimeSeries v of
              (reqs, Some err, resp) \<Rightarrow> (reqs, Rates resp, Some err)
            | (reqs, None, resp) \<Rightarrow>
                if \<not> Success resp
                then (reqs, Rates resp, Some (Error_Type resp @ Error_Info resp))
                else (reqs, Rates resp, None)))"

definition GetFluctuationData ::
  "(Values \<Rightarrow> string) \<Rightarrow>
   ('r option \<Rightarrow> http_request \<Rightarrow> error option \<times> 'm Response) \<Rightarrow>
   'r Fixer \<Rightarrow> string \<Rightarrow> string \<Rightarrow> string \<Rightarrow> string list \<Rightarrow>
   http_request list \<times> 'm option \<times> error option" where
  "GetFluctuationData Encode SendPayload f startDate endDate baseCurrency symbols =
     (if APIKeyLvl f < fixerAPIProfessionalPlus then
        ([], None,
         Some (''insufficient API privileges, upgrade to professional plus or '' @
               ''enterprise to use this function''))
      else
        (let v = [];
             v = values_Set ''start_date'' startDate v;
             v = values_Set ''end_date'' endDate v;
             v = values_Set ''base'' baseCurrency v;
             v = values_Set ''symbols'' (JoinStrings symbols '','') v
         in case SendOpenHTTPRequest Encode SendPayload f fixerAPIFluctuation v of
              (reqs, Some err, resp) \<Rightarrow> (reqs, Rates resp, Some err)
            | (reqs, None, resp) \<Rightarrow>
                if \<not> Success resp
                then (reqs, Rates resp, Some (Error_Type resp @ Error_Info resp))
                else (reqs, Rates resp, None)))"

text \<open>Concrete providers and a concrete network for the examples.\<close>

definition fixer0 :: "int \<Rightarrow> nat Fixer" where
  "fixer0 lvl = \<lparr>Name = ''Fixer'', Enabled = True, Verbose = False, RESTPollingDelay = 600,
                 APIKey = ''key'', APIKeyLvl = lvl, PrimaryProvider = False,
                 Requester = Some 0\<rparr>"

definition settings0 :: "int \<Rightarrow> Settings" where
  "settings0 lvl = \<lparr>Name = ''Fixer2'', Enabled = False, Verbose = True, RESTPollingDelay = 30,
                    APIKey = ''secret'', APIKeyLvl = lvl, PrimaryProvider = True\<rparr>"

definition encode0 :: "Values \<Rightarrow> string" where
  "encode0 v = JoinStrings (map (\<lambda>(k, vs). k @ ''='' @ JoinStrings vs '','') v) ''&''"

definition send0 ::
  "nat option \<Rightarrow> http_request \<Rightarrow> error option \<times> (string \<times> int) list Response" where
  "send0 r req =
     (None, \<lparr>Success = True, Error_Type = [], Error_Info = [],
             Rates = Some [(''USD'', 2), (''GBP'', 3)]\<rparr>)"

section \<open>The migration engine behind \<open>goose.Run\<close>\<close>

text \<open>
  Modelled from the spec: the migration engine (registry, ledger, planner, runner and
  dialect adapter). The repository holds only the call \<open>goose.Run\<close>; the engine is the
  external library goose, which is not part of the sources. Every definition of this
  section follows sections 3 and 4 of the specification, sentence by sentence; none is
  taken from code.
\<close>

text \<open>
  Modelled from the spec: the data model (3). A migration is identified by its version;
  an applied record is one row of the ledger; a plan is a sequence of migrations, each
  with its direction; the commands are those of the table of 4.4 and \<open>create\<close>; the
  errors are those named in 4.2 to 4.5 and 7.
\<close>

datatype direction = Up | Down

record Migration =
  version :: int
  name :: string
  upScript :: string
  downScript :: string

record AppliedRecord =
  applied_version :: int
  appliedAt :: nat

type_synonym MigrationSet = "Migration list"
type_synonym Ledger = "AppliedRecord list"
type_synonym Plan = "(Migration \<times> direction) list"

datatype engine_error =
    DuplicateVersionError
  | MalformedMigrationError
  | EmptySetError
  | DuplicateApplyError int
  | NotAppliedError int
  | NothingToDoError
  | UnknownVersionError int
  | LockContentionError
  | ExecutionError int string

datatype cmd = CmdStatus | CmdUp | CmdUpByOne | CmdUpTo int | CmdDown | CmdDownTo int
  | CmdCreate string

text \<open>
  Modelled from the spec: \<open>MigrationRegistry.Load\<close> (4.2). A source that lacks a required
  section is \<open>None\<close>. The set is ordered by ascending version; it fails on a malformed
  source, on two sources with one version, and on no source at all unless the command is
  \<open>create\<close>.
\<close>

definition Load :: "cmd \<Rightarrow> Migration option list \<Rightarrow> engine_error + MigrationSet" where
  "Load c sources =
     (case those sources of
        None \<Rightarrow> Inl MalformedMigrationError
      | Some ms \<Rightarrow>
          if \<not> distinct (map version ms) then Inl DuplicateVersionError
          else if ms = [] \<and> (case c of CmdCreate n \<Rightarrow> False | _ \<Rightarrow> True) then Inl EmptySetError
          else Inr (sort_key version ms))"

text \<open>Modelled from the spec: the operations of \<open>VersionLedger\<close> (4.3).\<close>

definition GetApplied :: "Ledger \<Rightarrow> int list" where
  "GetApplied l = map applied_version l"

definition RecordApplied :: "int \<Rightarrow> nat \<Rightarrow> Ledger \<Rightarrow> engine_error + Ledger" where
  "RecordApplied v t l =
     (if v \<in> set (GetApplied l) then Inl (DuplicateApplyError v)
      else Inr (l @ [\<lparr>applied_version = v, appliedAt = t\<rparr>]))"

definition RecordRolledBack :: "int \<Rightarrow> Ledger \<Rightarrow> engine_error + Ledger" where
  "RecordRolledBack v l =
     (if v \<notin> set (GetApplied l) then Inl (NotAppliedError v)
      else Inr (filter (\<lambda>r. applied_version r \<noteq> v) l))"

text \<open>
  Modelled from the spec: \<open>MigrationPlanner\<close> (4.4), a pure function of the migration
  set, the applied versions and the command with its target. \<open>status\<close> and \<open>create\<close>
  execute nothing and are not planned.
\<close>

definition pending :: "MigrationSet \<Rightarrow> int list \<Rightarrow> MigrationSet" where
  "pending ms applied = filter (\<lambda>m. version m \<notin> set applied) ms"

definition applied_migrations :: "MigrationSet \<Rightarrow> int list \<Rightarrow> MigrationSet" where
  "applied_migrations ms applied = filter (\<lambda>m. version m \<in> set applied) ms"

definition steps :: "direction \<Rightarrow> MigrationSet \<Rightarrow> Plan" where
  "steps d ms = map (\<lambda>m. (m, d)) ms"

fun compute_plan :: "MigrationSet \<Rightarrow> int list \<Rightarrow> cmd \<Rightarrow> engine_error + Plan" where
  "compute_plan ms applied CmdUp = Inr (steps Up (pending ms applied))"
| "compute_plan ms applied CmdUpByOne = Inr (steps Up (take 1 (pending ms applied)))"
| "compute_plan ms applied (CmdUpTo V) =
     (if V \<notin> set (map version ms) then Inl (UnknownVersionError V)
      else Inr (steps Up (filter (\<lambda>m. version m \<le> V) (pending ms applied))))"
| "compute_plan ms applied CmdDown =
     Inr (steps Down (take 1 (rev (applied_migrations ms applied))))"
| "compute_plan ms applied (CmdDownTo V) =
     (if V \<notin> set (map version ms) then Inl (UnknownVersionError V)
      else Inr (steps Down (rev (filter (\<lambda>m. version m > V) (applied_migrations ms applied)))))"
| "compute_plan ms applied CmdStatus = Inr []"
| "compute_plan ms applied (CmdCreate n) = Inr []"

definition Planner :: "MigrationSet \<Rightarrow> int list \<Rightarrow> cmd \<Rightarrow> engine_error + Plan" where
  "Planner ms applied c =
     (case compute_plan ms applied c of
        Inl e \<Rightarrow> Inl e
      | Inr p \<Rightarrow> if p = [] then Inl NothingToDoError else Inr p)"

text \<open>
  Modelled from the spec: \<open>DialectAdapter\<close> (4.1), with the capability the runner
  depends on and the execution of a script against the database. A script either
  succeeds, giving the new database, or fails with the database error, giving the
  database as the failed script left it.
\<close>

datatype 'db script_result = ScriptOk 'db | ScriptFailed string 'db

record 'db DialectAdapter =
  supportsTransactionalDDL :: bool
  execute :: "string \<Rightarrow> 'db \<Rightarrow> 'db script_result"

text \<open>
  Modelled from the spec: the state the runner works on (3, 4.5, 5): the database, its
  ledger table, the advisory lock and the clock that stamps the ledger rows. The record
  of every step executed so far is added for the statements about the engine; the
  engine itself does not read it. An entry holds the migration and direction of the
  step, the database the script was run against, and how the step ended.
\<close>

datatype outcome = Committed | ScriptError | LedgerError

record 'db exec_event =
  ev_migration :: Migration
  ev_direction :: direction
  ev_before :: 'db
  ev_outcome :: outcome

record 'db engine =
  database :: 'db
  ledger :: Ledger
  lock_held :: bool
  clock :: nat
  history :: "'db exec_event list"

definition script_of :: "Migration \<Rightarrow> direction \<Rightarrow> string" where
  "script_of m d = (case d of Up \<Rightarrow> upScript m | Down \<Rightarrow> downScript m)"

definition record_step :: "direction \<Rightarrow> int \<Rightarrow> nat \<Rightarrow> Ledger \<Rightarrow> engine_error + Ledger" where
  "record_step d v t l = (case d of Up \<Rightarrow> RecordApplied v t l | Down \<Rightarrow> RecordRolledBack v l)"

text \<open>
  Modelled from the spec: one plan step of \<open>MigrationRunner\<close> (4.5, state Executing). The
  script runs in a transaction where the dialect has transactional DDL; on success the
  ledger is updated in the same transaction, which is then committed; on failure the
  transaction of this step is rolled back and the ledger is left as it was.
\<close>

definition run_step ::
  "'db DialectAdapter \<Rightarrow> 'db engine \<Rightarrow> Migration \<times> direction \<Rightarrow> engine_error option \<times> 'db engine" where
  "run_step A s st =
     (let m = fst st; d = snd st; v = version m;
          entry = (\<lambda>out. \<lparr>ev_migration = m, ev_direction = d, ev_before = database s,
                            ev_outcome = out\<rparr>);
          rolled_back = (\<lambda>db'. if supportsTransactionalDDL A then database s else db')
      in case execute A (script_of m d) (database s) of
           ScriptFailed err db' \<Rightarrow>
             (Some (ExecutionError v err),
              s\<lparr>database := rolled_back db', clock := Suc (clock s),
                history := history s @ [entry ScriptError]\<rparr>)
         | ScriptOk db' \<Rightarrow>
             (case record_step d v (clock s) (ledger s) of
                Inl e \<Rightarrow>
                  (Some e,
                   s\<lparr>database := rolled_back db', clock := Suc (clock s),
                     history := history s @ [entry LedgerError]\<rparr>)
              | Inr l' \<Rightarrow>
                  (None,
                   s\<lparr>database := db', ledger := l', clock := Suc (clock s),
                     history := history s @ [entry Committed]\<rparr>)))"

text \<open>
  Modelled from the spec: the execution of a plan (4.5, state Executing), step by step
  in order. The first failure aborts the remaining plan and is returned with the last
  version completed before it.
\<close>

fun execute_plan ::
  "'db DialectAdapter \<Rightarrow> 'db engine \<Rightarrow> Plan \<Rightarrow> int option \<Rightarrow>
   (engine_error \<times> int option) option \<times> 'db engine" where
  "execute_plan A s [] done = (None, s)"
| "execute_plan A s (st # rest) done =
     (case run_step A s st of
        (Some e, s') \<Rightarrow> (Some (e, done), s')
      | (None, s') \<Rightarrow> execute_plan A s' rest (Some (version (fst st))))"

datatype run_result =
    RunOk
  | Report "(int \<times> bool) list"
  | Created Migration
  | Informational engine_error
  | Fatal engine_error "int option"

definition release :: "'db engine \<Rightarrow> 'db engine" where
  "release s = s\<lparr>lock_held := False\<rparr>"

text \<open>
  Modelled from the spec: one run of \<open>MigrationRunner\<close> (4.5). It takes the lock (a held
  lock is \<open>LockContentionError\<close> with no state changed), builds the registry afresh,
  plans from the ledger read under the lock, executes the plan and releases the lock on
  every path. \<open>status\<close> executes nothing and reports each version as applied or pending.
\<close>

definition Runner ::
  "'db DialectAdapter \<Rightarrow> Migration option list \<Rightarrow> 'db engine \<Rightarrow> cmd \<Rightarrow> run_result \<times> 'db engine" where
  "Runner A sources s c =
     (if lock_held s then (Fatal LockContentionError None, s)
      else
        (let s1 = s\<lparr>lock_held := True\<rparr> in
         case Load c sources of
           Inl e \<Rightarrow> (Fatal e None, release s1)
         | Inr ms \<Rightarrow>
             if c = CmdStatus then
               (Report (map (\<lambda>m. (version m, version m \<in> set (GetApplied (ledger s1)))) ms),
                release s1)
             else
               (case Planner ms (GetApplied (ledger s1)) c of
                  Inl e \<Rightarrow>
                    if e = NothingToDoError then (Informational e, release s1)
                    else (Fatal e None, release s1)
                | Inr plan \<Rightarrow>
                    (case execute_plan A s1 plan None of
                       (Some (e, done), s2) \<Rightarrow> (Fatal e done, release s2)
                     | (None, s2) \<Rightarrow> (RunOk, release s2)))))"

text \<open>
  Modelled from the spec: \<open>MigrationFileGenerator.Create\<close> (4.6), a skeleton with the
  current timestamp as version, and one invocation of the engine: \<open>create\<close> touches
  neither ledger nor connection, every other command is a run of the runner.
\<close>

definition Create :: "nat \<Rightarrow> string \<Rightarrow> Migration" where
  "Create now n = \<lparr>version = int now, name = n, upScript = [], downScript = []\<rparr>"

definition Run ::
  "'db DialectAdapter \<Rightarrow> Migration option list \<Rightarrow> 'db engine \<Rightarrow> cmd \<Rightarrow> run_result \<times> 'db engine" where
  "Run A sources s c =
     (case c of
        CmdCreate n \<Rightarrow> (Created (Create (clock s) n), s)
      | _ \<Rightarrow> Runner A sources s c)"

text \<open>
  Modelled from the spec: the plan that a run of the runner computes (4.4), if the run
  gets as far as planning, and the runs that end with a fatal error (7).
\<close>

definition computed_plan :: "Migration option list \<Rightarrow> 'db engine \<Rightarrow> cmd \<Rightarrow> Plan option" where
  "computed_plan sources s c =
     (if lock_held s then None
      else case Load c sources of
             Inl e \<Rightarrow> None
           | Inr ms \<Rightarrow>
               (case compute_plan ms (GetApplied (ledger s)) c of
                  Inl e \<Rightarrow> None
                | Inr p \<Rightarrow> Some p))"

definition is_fatal :: "run_result \<Rightarrow> bool" where
  "is_fatal r = (case r of Fatal e d \<Rightarrow> True | _ \<Rightarrow> False)"

text \<open>
  Modelled from the spec: the states the engine can be in. They are a fresh database
  with an empty ledger, and from any such state the state after one more plan step,
  whatever the step, and after the lock is taken or released. The states in the middle
  of a run, also of a run that fails, are among them.
\<close>

definition initial :: "'db \<Rightarrow> 'db engine" where
  "initial db = \<lparr>database = db, ledger = [], lock_held = False, clock = 0, history = []\<rparr>"

inductive reachable :: "'db DialectAdapter \<Rightarrow> 'db engine \<Rightarrow> bool" for A where
  reach_initial: "reachable A (initial db)"
| reach_step: "reachable A s \<Longrightarrow> reachable A (snd (run_step A s st))"
| reach_lock: "reachable A s \<Longrightarrow> reachable A (s\<lparr>lock_held := b\<rparr>)"

text \<open>
  Modelled from the spec: what the record of executions says, judged by the adapter
  and not by the runner. The script of an entry succeeded when \<open>execute\<close>, run on the
  script and the database of the entry, returns \<open>ScriptOk\<close>; the step fully succeeded when
  moreover it was committed. The versions whose up-script has been fully and
  successfully executed and not yet rolled back (3, Ledger) are read off the record: a
  fully succeeded up step adds its version, a fully succeeded down step removes it, any
  other step changes nothing.
\<close>

definition script_succeeded :: "'db DialectAdapter \<Rightarrow> 'db exec_event \<Rightarrow> bool" where
  "script_succeeded A ev =
     (case execute A (script_of (ev_migration ev) (ev_direction ev)) (ev_before ev) of
        ScriptOk db' \<Rightarrow> True
      | ScriptFailed err db' \<Rightarrow> False)"

definition step_succeeded :: "'db DialectAdapter \<Rightarrow> 'db exec_event \<Rightarrow> bool" where
  "step_succeeded A ev \<longleftrightarrow> script_succeeded A ev \<and> ev_outcome ev = Committed"

fun replay :: "'db DialectAdapter \<Rightarrow> 'db exec_event \<Rightarrow> int set \<Rightarrow> int set" where
  "replay A ev S =
     (if step_succeeded A ev
      then (case ev_direction ev of Up \<Rightarrow> insert (version (ev_migration ev)) S
                                  | Down \<Rightarrow> S - {version (ev_migration ev)})
      else S)"

definition succeeded_up :: "'db DialectAdapter \<Rightarrow> 'db exec_event list \<Rightarrow> int set" where
  "succeeded_up A h = fold (replay A) h {}"

text \<open>
  Modelled from the spec: the database a step leaves behind (4.3, 4.5), by the adapter:
  the result of the script when the step was committed; the database before the step
  when the step failed under transactional DDL; what the script left otherwise. The
  record of executions is connected from a database when each entry ran against the
  database that the entry before it left behind; \<open>replay_db\<close> then gives the database
  after the last entry.
\<close>

definition db_after :: "'db DialectAdapter \<Rightarrow> 'db exec_event \<Rightarrow> 'db" where
  "db_after A ev =
     (case execute A (script_of (ev_migration ev) (ev_direction ev)) (ev_before ev) of
        ScriptOk db' \<Rightarrow>
          if ev_outcome ev = Committed then db'
          else if supportsTransactionalDDL A then ev_before ev else db'
      | ScriptFailed err db' \<Rightarrow>
          if supportsTransactionalDDL A then ev_before ev else db')"

fun replay_db :: "'db DialectAdapter \<Rightarrow> 'db \<Rightarrow> 'db exec_event list \<Rightarrow> 'db option" where
  "replay_db A db [] = Some db"
| "replay_db A db (ev # evs) =
     (if ev_before ev = db then replay_db A (db_after A ev) evs else None)"

text \<open>A concrete engine: three migrations, the up-script of the third failing.\<close>

definition mig :: "int \<Rightarrow> Migration" where
  "mig v = \<lparr>version = v, name = ''m'',
            upScript = (if v = 3 then ''ALTER TABLE'' else ''CREATE TABLE''),
            downScript = ''DROP TABLE''\<rparr>"

definition sources0 :: "Migration option list" where
  "sources0 = [Some (mig 3), Some (mig 1), Some (mig 2)]"

definition adapter0 :: "string list DialectAdapter" where
  "adapter0 = \<lparr>supportsTransactionalDDL = True,
               execute = (\<lambda>script db. if script = ''ALTER TABLE'' then ScriptFailed ''syntax error'' db
                                       else ScriptOk (db @ [script]))\<rparr>"

definition adapter1 :: "string list DialectAdapter" where
  "adapter1 = \<lparr>supportsTransactionalDDL = True,
               execute = (\<lambda>script db. ScriptOk (db @ [script]))\<rparr>"

definition engine0 :: "string list engine" where
  "engine0 = initial []"

section \<open>Facts about the migration tool\<close>

lemma main_startup_ok:
  assumes "startup_ok e fl conf evs db"
  shows "main e fl =
     (let drv = repository_GetSQLDialect e;
          out1 = banner e @ [EvLoadConfig (configFile fl) True] @ evs @
                   [if drv = database_DBSQLite e \<or> drv = database_DBSQLite3 e
                    then Print (''Database file: '' @
                           Database_Database (Config_Database conf) @ [CHR 0x0A])
                    else Print (''Connected to: '' @
                           Database_Host (Config_Database conf) @ [CHR 0x0A])]
      in if command fl = '''' then
           (out1 @ [EvGooseRun ''status'' (SQL db) drv (migrationDir fl) '''',
                    Println '''', EvUsage], 0)
         else
           (case goose_Run e (command fl) (SQL db) drv (migrationDir fl) (args fl) of
              Some err \<Rightarrow>
                (out1 @ [EvGooseRun (command fl) (SQL db) drv (migrationDir fl) (args fl),
                         Println err], 0)
            | None \<Rightarrow>
                (out1 @ [EvGooseRun (command fl) (SQL db) drv (migrationDir fl) (args fl)], 0)))"
  using assms by (simp add: main_def startup_ok_def Let_def split: option.splits)

lemma openDbConnection_events:
  "openDbConnection e d = (evs, r) \<Longrightarrow> goose_calls evs = []"
  by (auto simp: openDbConnection_def goose_calls_def split: if_splits sum.splits)

lemma banner_no_db [simp]:
  "db_interactions (banner e) = []" "goose_calls (banner e) = []"
  by (simp_all add: banner_def db_interactions_def goose_calls_def Println_def)

lemma startup_ok_env0:
  "startup_ok env0 (flags0 c a) conf0 [EvConnectPSQL] \<lparr>SQL = 7\<rparr>"
  by (simp add: startup_ok_def env0_def flags0_def conf0_def openDbConnection_def)

lemmas env0_simps = env0_def flags0_def goose0_def conf0_def

lemma openDbConnection_goose_update [simp]:
  "openDbConnection (e\<lparr>goose_Run := g\<rparr>) d = openDbConnection e d"
  by (simp add: openDbConnection_def)

lemma banner_goose_update [simp]: "banner (e\<lparr>goose_Run := g\<rparr>) = banner e"
  by (simp add: banner_def)

lemma main_empty_command_ignores_goose:
  "command fl = [] \<Longrightarrow> main (e\<lparr>goose_Run := g\<rparr>) fl = main e fl"
  by (simp add: main_def Let_def split: sum.splits prod.splits)

lemma main_LoadConfig_fails:
  "conf_LoadConfig e (configFile fl) True = Inl err \<Longrightarrow>
   main e fl = (banner e @ [EvLoadConfig (configFile fl) True, Println err], 1)"
  by (simp add: main_def)

lemma main_disabled:
  "conf_LoadConfig e (configFile fl) True = Inr conf \<Longrightarrow>
   \<not> Database_Enabled (Config_Database conf) \<Longrightarrow>
   main e fl =
     (banner e @ [EvLoadConfig (configFile fl) True, Println ''Database support is disabled''], 1)"
  by (simp add: main_def)

lemma main_connect_fails:
  "conf_LoadConfig e (configFile fl) True = Inr conf \<Longrightarrow>
   Database_Enabled (Config_Database conf) \<Longrightarrow>
   openDbConnection e (Database_Driver (Config_Database conf)) = (evs, Inl err) \<Longrightarrow>
   main e fl = (banner e @ [EvLoadConfig (configFile fl) True] @ evs @ [Println err], 1)"
  by (simp add: main_def)

lemma main_goose_fails:
  "startup_ok e fl conf evs db \<Longrightarrow> command fl \<noteq> [] \<Longrightarrow>
   goose_Run e (command fl) (SQL db) (repository_GetSQLDialect e) (migrationDir fl) (args fl)
     = Some err \<Longrightarrow>
   Println err \<in> set (trace (main e fl))"
  by (simp add: main_startup_ok trace_def Let_def)

text \<open>
  C1, the code at a failing input. Configuration and connection are in order and goose
  returns an error for \<open>up\<close>: the tool prints the error and ends with exit status 0,
  the status of a run whose migration succeeds, where the specification has a non-zero
  status.
\<close>

theorem C1_migration_failure_exits_zero:
  "goose_Run env0 ''up'' 7 ''postgres'' ''/migrations'' [] = Some ''ERROR 1 migration failed'' \<and>
   main env0 (flags0 ''up'' []) =
     ([Println ''GoCryptoTrader database migration tool'', Println ''(c) GoCryptoTrader'',
       Println [], EvLoadConfig ''config.json'' True, EvConnectPSQL,
       Print (''Connected to: localhost'' @ [CHR 0x0A]),
       EvGooseRun ''up'' 7 ''postgres'' ''/migrations'' [],
       Println ''ERROR 1 migration failed''], 0) \<and>
   goose_Run env0 ''down'' 7 ''postgres'' ''/migrations'' [] = None \<and>
   exit_status (main env0 (flags0 ''up'' [])) = exit_status (main env0 (flags0 ''down'' []))"
  by (simp add: main_def openDbConnection_def banner_def exit_status_def env0_simps)

text \<open>
  C2 fails as stated. With an empty command the default status action returns an error,
  and the run prints nothing of it: the events are those of a status action that succeeds.
\<close>

theorem C2_status_error_discarded:
  "goose_Run env0 ''status'' 7 ''postgres'' ''/migrations'' [] =
     Some ''failed to read the version table'' \<and>
   main env0 (flags0 [] []) =
     ([Println ''GoCryptoTrader database migration tool'', Println ''(c) GoCryptoTrader'',
       Println [], EvLoadConfig ''config.json'' True, EvConnectPSQL,
       Print (''Connected to: localhost'' @ [CHR 0x0A]),
       EvGooseRun ''status'' 7 ''postgres'' ''/migrations'' [],
       Println [], EvUsage], 0) \<and>
   Println ''failed to read the version table'' \<notin> set (trace (main env0 (flags0 [] [])))"
  by (simp add: main_def openDbConnection_def banner_def trace_def Println_def env0_simps)

text \<open>
  C2, as amended. The error of a failed configuration load, the message of a disabled
  database, the error of a failed connection and the error that goose returns for a
  non-empty command are each printed. With an empty command the result of the default
  status action is discarded: the run is the same whatever goose returns.
\<close>

theorem C2_errors_printed_except_default_status:
  "(conf_LoadConfig e (configFile fl) True = Inl err \<longrightarrow>
      Println err \<in> set (trace (main e fl))) \<and>
   (conf_LoadConfig e (configFile fl) True = Inr conf \<and>
    \<not> Database_Enabled (Config_Database conf) \<longrightarrow>
      Println ''Database support is disabled'' \<in> set (trace (main e fl))) \<and>
   (conf_LoadConfig e (configFile fl) True = Inr conf \<and>
    Database_Enabled (Config_Database conf) \<and>
    openDbConnection e (Database_Driver (Config_Database conf)) = (evs, Inl err) \<longrightarrow>
      Println err \<in> set (trace (main e fl))) \<and>
   (startup_ok e fl conf evs db \<and> command fl \<noteq> [] \<and>
    goose_Run e (command fl) (SQL db) (repository_GetSQLDialect e) (migrationDir fl) (args fl)
      = Some err \<longrightarrow>
      Println err \<in> set (trace (main e fl))) \<and>
   (command fl = [] \<longrightarrow> main (e\<lparr>goose_Run := g\<rparr>) fl = main e fl)"
  using main_goose_fails [of e fl conf evs db err]
  by (auto simp: main_LoadConfig_fails main_disabled main_connect_fails trace_def
      main_empty_command_ignores_goose)

text \<open>C2, as amended, at a failing configuration, a failing \<open>up\<close> and an empty command.\<close>

theorem C2_errors_printed_except_default_status_witness:
  "Println ''config file not found'' \<in>
     set (trace (main env0 ((flags0 ''up'' [])\<lparr>configFile := ''x''\<rparr>))) \<and>
   Println ''ERROR 1 migration failed'' \<in> set (trace (main env0 (flags0 ''up'' []))) \<and>
   main (env0\<lparr>goose_Run := (\<lambda>c h d m a. None)\<rparr>) (flags0 [] []) = main env0 (flags0 [] [])"
proof -
  have a: "conf_LoadConfig env0 (configFile ((flags0 ''up'' [])\<lparr>configFile := ''x''\<rparr>)) True
             = Inl ''config file not found''"
    by (simp add: env0_simps)
  have b: "startup_ok env0 (flags0 ''up'' []) conf0 [EvConnectPSQL] \<lparr>SQL = 7\<rparr> \<and>
           command (flags0 ''up'' []) \<noteq> [] \<and>
           goose_Run env0 (command (flags0 ''up'' [])) (SQL \<lparr>SQL = 7\<rparr>)
             (repository_GetSQLDialect env0) (migrationDir (flags0 ''up'' []))
             (args (flags0 ''up'' [])) = Some ''ERROR 1 migration failed''"
    using startup_ok_env0 [of "''up''" "[]"] by (simp add: env0_simps)
  have c: "command (flags0 [] []) = []" by (simp add: flags0_def)
  have 1: "Println ''config file not found'' \<in>
             set (trace (main env0 ((flags0 ''up'' [])\<lparr>configFile := ''x''\<rparr>)))"
    using C2_errors_printed_except_default_status
            [where e = env0 and fl = "(flags0 ''up'' [])\<lparr>configFile := ''x''\<rparr>"
               and err = "''config file not found''" and conf = conf0 and evs = "[]"
               and db = "\<lparr>SQL = 7\<rparr>" and g = goose0] a
    by blast
  have 2: "Println ''ERROR 1 migration failed'' \<in> set (trace (main env0 (flags0 ''up'' [])))"
    using C2_errors_printed_except_default_status
            [where e = env0 and fl = "flags0 ''up'' []"
               and err = "''ERROR 1 migration failed''" and conf = conf0
               and evs = "[EvConnectPSQL]" and db = "\<lparr>SQL = 7\<rparr>" and g = goose0] b
    by blast
  have 3: "main (env0\<lparr>goose_Run := (\<lambda>c h d m a. None)\<rparr>) (flags0 [] []) = main env0 (flags0 [] [])"
    using C2_errors_printed_except_default_status
            [where e = env0 and fl = "flags0 [] []" and err = "[]" and conf = conf0
               and evs = "[]" and db = "\<lparr>SQL = 7\<rparr>" and g = "\<lambda>c h d m a. None"] c
    by blast
  show ?thesis using 1 2 3 by blast
qed

text \<open>
  C3 fails as stated. A command outside the seven is not rejected before the database is
  touched: the connection is opened and the command is handed to goose.
\<close>

theorem C3_unknown_command_reaches_database:
  "''bogus'' \<notin> set [''status'', ''up'', ''up-by-one'', ''up-to'', ''down'', ''down-to'', ''create''] \<and>
   db_interactions (trace (main env0 (flags0 ''bogus'' []))) =
     [EvConnectPSQL, EvGooseRun ''bogus'' 7 ''postgres'' ''/migrations'' []]"
  by (simp add: main_def openDbConnection_def banner_def trace_def Println_def
      db_interactions_def env0_simps)

text \<open>
  C3, as amended. The tool checks no command. When the start-up succeeds, the command
  given, whatever it is (\<open>status\<close> for the empty one), goes to goose after the
  connection has been opened, and goose alone decides whether it is known. When the
  start-up fails, the run does not depend on the command.
\<close>

theorem C3_every_command_handed_to_goose:
  "(startup_ok e fl conf evs db \<longrightarrow>
      db_interactions (trace (main e fl)) =
        db_interactions evs @
        [EvGooseRun (if command fl = [] then ''status'' else command fl) (SQL db)
           (repository_GetSQLDialect e) (migrationDir fl)
           (if command fl = [] then [] else args fl)]) \<and>
   ((\<forall>conf evs db. \<not> startup_ok e fl conf evs db) \<longrightarrow>
      main e (fl\<lparr>command := c, args := a\<rparr>) = main e fl)"
proof (intro conjI impI)
  assume ok: "startup_ok e fl conf evs db"
  show "db_interactions (trace (main e fl)) =
        db_interactions evs @
        [EvGooseRun (if command fl = [] then ''status'' else command fl) (SQL db)
           (repository_GetSQLDialect e) (migrationDir fl)
           (if command fl = [] then [] else args fl)]"
    by (simp add: main_startup_ok [OF ok] trace_def Let_def db_interactions_def Println_def
        banner_def split: option.splits)
next
  assume no: "\<forall>conf evs db. \<not> startup_ok e fl conf evs db"
  then show "main e (fl\<lparr>command := c, args := a\<rparr>) = main e fl"
    by (auto simp: main_def startup_ok_def Let_def split: sum.splits prod.splits)
qed

text \<open>C3, as amended, at an unknown command and at a configuration that does not load.\<close>

theorem C3_every_command_handed_to_goose_witness:
  "db_interactions (trace (main env0 (flags0 ''bogus'' ''x''))) =
     [EvConnectPSQL, EvGooseRun ''bogus'' 7 ''postgres'' ''/migrations'' ''x''] \<and>
   main env0 ((flags0 ''up'' [])\<lparr>configFile := ''x'', command := ''bogus'', args := ''y''\<rparr>) =
   main env0 ((flags0 ''up'' [])\<lparr>configFile := ''x''\<rparr>)"
proof -
  have no: "\<forall>conf evs db. \<not> startup_ok env0 ((flags0 ''up'' [])\<lparr>configFile := ''x''\<rparr>) conf evs db"
    by (simp add: startup_ok_def env0_simps)
  have 1: "db_interactions (trace (main env0 (flags0 ''bogus'' ''x''))) =
           db_interactions [EvConnectPSQL] @
           [EvGooseRun (if command (flags0 ''bogus'' ''x'') = [] then ''status''
                        else command (flags0 ''bogus'' ''x'')) (SQL \<lparr>SQL = (7::nat)\<rparr>)
              (repository_GetSQLDialect env0) (migrationDir (flags0 ''bogus'' ''x''))
              (if command (flags0 ''bogus'' ''x'') = [] then []
               else args (flags0 ''bogus'' ''x''))]"
    using C3_every_command_handed_to_goose
            [where e = env0 and fl = "flags0 ''bogus'' ''x''" and conf = conf0
               and evs = "[EvConnectPSQL]" and db = "\<lparr>SQL = 7\<rparr>" and c = "[]" and a = "[]"]
          startup_ok_env0 [of "''bogus''" "''x''"]
    by blast
  have 2: "main env0 ((flags0 ''up'' [])\<lparr>configFile := ''x''\<rparr>\<lparr>command := ''bogus'', args := ''y''\<rparr>) =
           main env0 ((flags0 ''up'' [])\<lparr>configFile := ''x''\<rparr>)"
    using C3_every_command_handed_to_goose
            [where e = env0 and fl = "(flags0 ''up'' [])\<lparr>configFile := ''x''\<rparr>" and conf = conf0
               and evs = "[]" and db = "\<lparr>SQL = 7\<rparr>" and c = "''bogus''" and a = "''y''"] no
    by blast
  show ?thesis using 1 2 by (simp add: db_interactions_def env0_simps)
qed

text \<open>
  C4. When the configuration does not load, or loads with database support disabled, the
  process prints the error and exits with status 1 with no connection attempt and no call
  of goose. When the connection cannot be opened, it prints the error and exits with
  status 1 with no call of goose, the only access to the ledger.
\<close>

theorem C4_startup_failure_exits_before_database:
  "(conf_LoadConfig e (configFile fl) True = Inl err \<longrightarrow>
      main e fl = (banner e @ [EvLoadConfig (configFile fl) True, Println err], 1) \<and>
      db_interactions (trace (main e fl)) = []) \<and>
   (conf_LoadConfig e (configFile fl) True = Inr conf \<and>
    \<not> Database_Enabled (Config_Database conf) \<longrightarrow>
      main e fl = (banner e @ [EvLoadConfig (configFile fl) True,
                               Println ''Database support is disabled''], 1) \<and>
      db_interactions (trace (main e fl)) = []) \<and>
   (conf_LoadConfig e (configFile fl) True = Inr conf \<and>
    Database_Enabled (Config_Database conf) \<and>
    openDbConnection e (Database_Driver (Config_Database conf)) = (evs, Inl err) \<longrightarrow>
      main e fl = (banner e @ [EvLoadConfig (configFile fl) True] @ evs @ [Println err], 1) \<and>
      goose_calls (trace (main e fl)) = [])"
  by (auto simp: main_LoadConfig_fails main_disabled main_connect_fails trace_def
      db_interactions_def goose_calls_def Println_def banner_def
      dest: openDbConnection_events)


text \<open>
  C4 at a configuration that does not load, at one with the database disabled and at a
  refused connection.
\<close>

theorem C4_startup_failure_exits_before_database_witness:
  "main env0 ((flags0 ''up'' [])\<lparr>configFile := ''x''\<rparr>) =
     (banner env0 @ [EvLoadConfig ''x'' True, Println ''config file not found''], 1) \<and>
   db_interactions (trace (main env0 ((flags0 ''up'' [])\<lparr>configFile := ''x''\<rparr>))) = [] \<and>
   db_interactions (trace (main
      (env0\<lparr>conf_LoadConfig := \<lambda>f d. Inr (conf0\<lparr>Config_Database :=
          (Config_Database conf0)\<lparr>Database_Enabled := False\<rparr>\<rparr>)\<rparr>) (flags0 ''up'' []))) = [] \<and>
   goose_calls (trace (main (env0\<lparr>dbPSQL_Connect := Inl ''connection refused''\<rparr>)
      (flags0 ''up'' []))) = []"
proof -
  let ?fl1 = "(flags0 ''up'' [])\<lparr>configFile := ''x''\<rparr>"
  let ?off = "conf0\<lparr>Config_Database := (Config_Database conf0)\<lparr>Database_Enabled := False\<rparr>\<rparr>"
  let ?e2 = "env0\<lparr>conf_LoadConfig := \<lambda>f d. Inr ?off\<rparr>"
  let ?e3 = "env0\<lparr>dbPSQL_Connect := Inl ''connection refused''\<rparr>"
  let ?msg = "''database failed to connect: connection refused'' @
              '', some features that utilise a database will be unavailable''"
  have a: "conf_LoadConfig env0 (configFile ?fl1) True = Inl ''config file not found''"
    by (simp add: env0_simps)
  have b: "conf_LoadConfig ?e2 (configFile (flags0 ''up'' [])) True = Inr ?off \<and>
           \<not> Database_Enabled (Config_Database ?off)"
    by (simp add: env0_simps)
  have c: "conf_LoadConfig ?e3 (configFile (flags0 ''up'' [])) True = Inr conf0 \<and>
           Database_Enabled (Config_Database conf0) \<and>
           openDbConnection ?e3 (Database_Driver (Config_Database conf0)) =
             ([EvConnectPSQL], Inl ?msg)"
    by (simp add: env0_simps openDbConnection_def)
  have 1: "main env0 ?fl1 =
             (banner env0 @ [EvLoadConfig (configFile ?fl1) True, Println ''config file not found''], 1) \<and>
           db_interactions (trace (main env0 ?fl1)) = []"
    using C4_startup_failure_exits_before_database
            [where e = env0 and fl = ?fl1 and err = "''config file not found''" and conf = conf0
               and evs = "[]"] a
    by blast
  have 2: "db_interactions (trace (main ?e2 (flags0 ''up'' []))) = []"
    using C4_startup_failure_exits_before_database
            [where e = ?e2 and fl = "flags0 ''up'' []" and err = "[]" and conf = ?off
               and evs = "[]"] b
    by blast
  have 3: "goose_calls (trace (main ?e3 (flags0 ''up'' []))) = []"
    using C4_startup_failure_exits_before_database
            [where e = ?e3 and fl = "flags0 ''up'' []" and err = ?msg and conf = conf0
               and evs = "[EvConnectPSQL]"] c
    by blast
  have x: "configFile ?fl1 = ''x''" by simp
  show ?thesis using 1 [unfolded x] 2 3 by blast
qed

text \<open>
  C5 fails as stated. With the non-empty command \<open>up\<close> and a configuration that does
  not load, the process exits before the dispatch and goose is not called at all.
\<close>

theorem C5_no_call_when_startup_fails:
  "command ((flags0 ''up'' [])\<lparr>configFile := ''x''\<rparr>) = ''up'' \<and>
   conf_LoadConfig env0 (configFile ((flags0 ''up'' [])\<lparr>configFile := ''x''\<rparr>)) True =
     Inl ''config file not found'' \<and>
   main env0 ((flags0 ''up'' [])\<lparr>configFile := ''x''\<rparr>) =
     ([Println ''GoCryptoTrader database migration tool'', Println ''(c) GoCryptoTrader'',
       Println [], EvLoadConfig ''x'' True, Println ''config file not found''], 1) \<and>
   goose_calls (trace (main env0 ((flags0 ''up'' [])\<lparr>configFile := ''x''\<rparr>))) = []"
  by (simp add: main_def banner_def trace_def goose_calls_def Println_def env0_simps)

text \<open>
  C5, as amended. For every non-empty command, when the configuration loads, database
  support is enabled and the connection opens, goose is called exactly once, with the
  command, the database handle, the dialect, the migration directory and the arguments
  as they are.
\<close>

theorem C5_command_passed_through_once:
  assumes ok: "startup_ok e fl conf evs db" and ne: "command fl \<noteq> []"
  shows "goose_calls (trace (main e fl)) =
     [EvGooseRun (command fl) (SQL db) (repository_GetSQLDialect e) (migrationDir fl) (args fl)]"
proof -
  have "goose_calls evs = []"
    using ok openDbConnection_events by (auto simp: startup_ok_def)
  then show ?thesis
    using ne
    by (simp add: main_startup_ok [OF ok] trace_def Let_def goose_calls_def Println_def
        banner_def split: option.splits)
qed

text \<open>C5 at the command \<open>up-to\<close> with a target version.\<close>

theorem C5_command_passed_through_once_witness:
  "goose_calls (trace (main env0 (flags0 ''up-to'' ''20190101''))) =
     [EvGooseRun ''up-to'' 7 ''postgres'' ''/migrations'' ''20190101'']"
proof -
  have ne: "command (flags0 ''up-to'' ''20190101'') \<noteq> []" by (simp add: flags0_def)
  show ?thesis
    using C5_command_passed_through_once [OF startup_ok_env0 ne]
    by (simp add: env0_simps)
qed

section \<open>Facts about the Fixer provider\<close>

lemmas fixer_levels = fixerAPIFree_def fixerAPIBasic_def fixerAPIProfessional_def
  fixerAPIProfessionalPlus_def fixerAPIEnterprise_def

text \<open>
  C8. \<open>Setup\<close> returns an error exactly when the level of the settings is below 0 or
  above 4; with an error the receiver is returned as it was; without one the seven fields
  \<open>APIKey\<close>, \<open>APIKeyLvl\<close>, \<open>Enabled\<close>, \<open>Name\<close>, \<open>RESTPollingDelay\<close>, \<open>Verbose\<close> and
  \<open>PrimaryProvider\<close> of the receiver are those of the settings.
\<close>

theorem C8_Setup_error_and_fields:
  "(fst (snd (Setup request_New f config)) \<noteq> None \<longleftrightarrow>
      APIKeyLvl config < 0 \<or> APIKeyLvl config > 4) \<and>
   (fst (snd (Setup request_New f config)) \<noteq> None \<longrightarrow>
      snd (snd (Setup request_New f config)) = f) \<and>
   (fst (snd (Setup request_New f config)) = None \<longrightarrow>
      APIKey (snd (snd (Setup request_New f config))) = APIKey config \<and>
      APIKeyLvl (snd (snd (Setup request_New f config))) = APIKeyLvl config \<and>
      Enabled (snd (snd (Setup request_New f config))) = Enabled config \<and>
      Name (snd (snd (Setup request_New f config))) = Name config \<and>
      RESTPollingDelay (snd (snd (Setup request_New f config))) = RESTPollingDelay config \<and>
      Verbose (snd (snd (Setup request_New f config))) = Verbose config \<and>
      PrimaryProvider (snd (snd (Setup request_New f config))) = PrimaryProvider config)"
  by (simp add: Setup_def Let_def)

text \<open>C8 at level 5, which is refused, and at level 4, which is accepted.\<close>

theorem C8_Setup_error_and_fields_witness:
  "snd (snd (Setup length (fixer0 0) (settings0 5))) = fixer0 0 \<and>
   fst (snd (Setup length (fixer0 0) (settings0 5))) \<noteq> None \<and>
   fst (snd (Setup length (fixer0 0) (settings0 4))) = None \<and>
   APIKey (snd (snd (Setup length (fixer0 0) (settings0 4)))) = ''secret'' \<and>
   APIKeyLvl (snd (snd (Setup length (fixer0 0) (settings0 4)))) = 4 \<and>
   Name (snd (snd (Setup length (fixer0 0) (settings0 4)))) = ''Fixer2''"
proof -
  note t5 = C8_Setup_error_and_fields [where request_New = length and f = "fixer0 0"
              and config = "settings0 5"]
  note t4 = C8_Setup_error_and_fields [where request_New = length and f = "fixer0 0"
              and config = "settings0 4"]
  have bad: "APIKeyLvl (settings0 5) < 0 \<or> APIKeyLvl (settings0 5) > 4"
    by (simp add: settings0_def)
  have good: "\<not> (APIKeyLvl (settings0 4) < 0 \<or> APIKeyLvl (settings0 4) > 4)"
    by (simp add: settings0_def)
  have e5: "fst (snd (Setup length (fixer0 0) (settings0 5))) \<noteq> None"
    using t5 [THEN conjunct1] bad by (rule iffD2)
  have u5: "snd (snd (Setup length (fixer0 0) (settings0 5))) = fixer0 0"
    using t5 [THEN conjunct2, THEN conjunct1] e5 by (rule mp)
  have e4: "fst (snd (Setup length (fixer0 0) (settings0 4))) = None"
    using t4 [THEN conjunct1] good by blast
  have f4: "APIKey (snd (snd (Setup length (fixer0 0) (settings0 4)))) = APIKey (settings0 4) \<and>
            APIKeyLvl (snd (snd (Setup length (fixer0 0) (settings0 4)))) =
              APIKeyLvl (settings0 4) \<and>
            Name (snd (snd (Setup length (fixer0 0) (settings0 4)))) = Name (settings0 4)"
    using t4 [THEN conjunct2, THEN conjunct2] e4 by blast
  have s: "APIKey (settings0 4) = ''secret'' \<and> APIKeyLvl (settings0 4) = 4 \<and>
           Name (settings0 4) = ''Fixer2''"
    by (simp add: settings0_def)
  show ?thesis
    using e5 u5 e4 f4 s by simp
qed

lemma keys_map_assign: "fst ` set (map_assign k v m) = insert k (fst ` set m)"
proof (induction m)
  case Nil
  then show ?case by simp
next
  case (Cons kv m)
  obtain k' v' where kv: "kv = (k', v')" by (cases kv)
  show ?case using Cons.IH by (simp add: kv insert_commute)
qed

lemma keys_fold_map_assign:
  "fst ` set (fold (\<lambda>(k, v) m. map_assign (b @ k) v m) kvs acc) =
   fst ` set acc \<union> (\<lambda>k. b @ k) ` fst ` set kvs"
proof (induction kvs arbitrary: acc)
  case Nil
  then show ?case by simp
next
  case (Cons kv kvs)
  obtain k v where kv: "kv = (k, v)" by (cases kv)
  show ?case
    using Cons.IH [of "map_assign (b @ k) v acc"]
    by (simp add: kv keys_map_assign)
qed

lemma GetRates_success:
  assumes "GetRates Encode SendPayload f baseCurrency symbols = (reqs, r, None)"
  shows "\<exists>rates. GetLatestRates Encode SendPayload f baseCurrency symbols = (reqs, rates, None) \<and>
     r = Some (fold (\<lambda>(k, v) m.
            map_assign ((if APIKeyLvl f = fixerAPIFree then ''EUR'' else baseCurrency) @ k) v m)
          (range_entries rates) [])"
  using assms by (auto simp: GetRates_def Let_def split: prod.splits option.splits)

text \<open>
  C9. When \<open>GetRates\<close> returns without error, its result is a map whose keys are exactly
  the rate symbols returned by \<open>GetLatestRates\<close>, each prefixed with \<open>EUR\<close> on the free
  tier, whatever base currency was passed, and with the base currency passed on every
  other tier.
\<close>

theorem C9_GetRates_keys:
  assumes "GetRates Encode SendPayload f baseCurrency symbols = (reqs, r, None)"
  shows "\<exists>m. r = Some m \<and>
     fst ` set m =
       (\<lambda>k. (if APIKeyLvl f = fixerAPIFree then ''EUR'' else baseCurrency) @ k) `
         fst ` set (range_entries
           (fst (snd (GetLatestRates Encode SendPayload f baseCurrency symbols))))"
proof -
  from GetRates_success [OF assms] obtain rates where
    g: "GetLatestRates Encode SendPayload f baseCurrency symbols = (reqs, rates, None)" and
    r: "r = Some (fold (\<lambda>(k, v) m.
            map_assign ((if APIKeyLvl f = fixerAPIFree then ''EUR'' else baseCurrency) @ k) v m)
          (range_entries rates) [])"
    by blast
  show ?thesis
    by (simp add: r g keys_fold_map_assign)
qed

text \<open>
  C10. Below the basic tier \<open>ConvertCurrency\<close> returns 0 and an error; below the
  professional tier \<open>GetTimeSeriesData\<close> returns \<open>nil\<close> and an error; below the
  professional-plus tier \<open>GetFluctuationData\<close> returns \<open>nil\<close> and an error; in each case
  no request has been sent.
\<close>

theorem C10_tier_gates:
  "(APIKeyLvl f < fixerAPIBasic \<longrightarrow>
      (\<exists>err. ConvertCurrency Encode FormatFloat SendConversion f fromCurrency toCurrency date amount =
               ([], 0, Some err))) \<and>
   (APIKeyLvl f < fixerAPIProfessional \<longrightarrow>
      (\<exists>err. GetTimeSeriesData Encode SendTimeSeries f startDate endDate baseCurrency symbols =
               ([], None, Some err))) \<and>
   (APIKeyLvl f < fixerAPIProfessionalPlus \<longrightarrow>
      (\<exists>err. GetFluctuationData Encode SendFluctuation f startDate endDate baseCurrency symbols =
               ([], None, Some err)))"
  by (simp add: ConvertCurrency_def GetTimeSeriesData_def GetFluctuationData_def)


text \<open>C10 at levels 0, 1 and 2.\<close>

theorem C10_tier_gates_witness:
  "(\<exists>err. ConvertCurrency encode0 (\<lambda>x. ''1'')
            (\<lambda>r q. (None, \<lparr>Conversion_Success = True, Conversion_Error_Type = [],
                               Conversion_Error_Info = [], Result = (5::int)\<rparr>))
            (fixer0 0) ''USD'' ''EUR'' ''2019-01-01'' 1 = ([], 0, Some err)) \<and>
   (\<exists>err. GetTimeSeriesData encode0 send0 (fixer0 1) ''2019-01-01'' ''2019-01-31'' ''USD''
            [''EUR'', ''GBP''] = ([], None, Some err)) \<and>
   (\<exists>err. GetFluctuationData encode0 send0 (fixer0 2) ''2019-01-01'' ''2019-01-31'' ''USD''
            [''EUR'', ''GBP''] = ([], None, Some err))"
proof -
  have l0: "APIKeyLvl (fixer0 0) < fixerAPIBasic"
    by (simp add: fixer0_def fixer_levels)
  have l1: "APIKeyLvl (fixer0 1) < fixerAPIProfessional"
    by (simp add: fixer0_def fixer_levels)
  have l2: "APIKeyLvl (fixer0 2) < fixerAPIProfessionalPlus"
    by (simp add: fixer0_def fixer_levels)
  show ?thesis
    using C10_tier_gates [where f = "fixer0 0" and Encode = encode0
              and FormatFloat = "\<lambda>x. ''1''"
              and SendConversion = "\<lambda>r q. (None, \<lparr>Conversion_Success = True,
                    Conversion_Error_Type = [], Conversion_Error_Info = [], Result = (5::int)\<rparr>)"
              and SendTimeSeries = send0 and SendFluctuation = send0
              and fromCurrency = "''USD''" and toCurrency = "''EUR''" and date = "''2019-01-01''"
              and amount = 1, THEN conjunct1, THEN mp, OF l0]
          C10_tier_gates [where f = "fixer0 1" and Encode = encode0
              and FormatFloat = "\<lambda>x::int. ''1''"
              and SendConversion = "\<lambda>r q. (None, \<lparr>Conversion_Success = True,
                    Conversion_Error_Type = [], Conversion_Error_Info = [], Result = (5::int)\<rparr>)"
              and SendTimeSeries = send0 and SendFluctuation = send0
              and startDate = "''2019-01-01''" and endDate = "''2019-01-31''"
              and baseCurrency = "''USD''" and symbols = "[''EUR'', ''GBP'']",
              THEN conjunct2, THEN conjunct1, THEN mp, OF l1]
          C10_tier_gates [where f = "fixer0 2" and Encode = encode0
              and FormatFloat = "\<lambda>x::int. ''1''"
              and SendConversion = "\<lambda>r q. (None, \<lparr>Conversion_Success = True,
                    Conversion_Error_Type = [], Conversion_Error_Info = [], Result = (5::int)\<rparr>)"
              and SendTimeSeries = send0 and SendFluctuation = send0
              and startDate = "''2019-01-01''" and endDate = "''2019-01-31''"
              and baseCurrency = "''USD''" and symbols = "[''EUR'', ''GBP'']",
              THEN conjunct2, THEN conjunct2, THEN mp, OF l2]
    by (intro conjI)
qed

lemma GetRates_free0:
  "GetRates encode0 send0 (fixer0 0) ''USD'' ''USD,GBP'' =
     ([\<lparr>Method = ''GET'',
        Path = ''http://data.fixer.io/api/latest?symbols=USD,GBP&access_key=key'',
        AuthRequest = False, VerboseRequest = False\<rparr>],
      Some [(''EURUSD'', 2), (''EURGBP'', 3)], None)"
  by (simp add: GetRates_def GetLatestRates_def SendOpenHTTPRequest_def send0_def encode0_def
      fixer0_def fixer_levels fixerAPI_def fixerAPISSL_def fixerAPILatest_def)

lemma GetRates_basic0:
  "GetRates encode0 send0 (fixer0 1) ''USD'' ''USD,GBP'' =
     ([\<lparr>Method = ''GET'',
        Path = ''https://data.fixer.io/api/latest?base=USD&symbols=USD,GBP&access_key=key'',
        AuthRequest = True, VerboseRequest = False\<rparr>],
      Some [(''USDUSD'', 2), (''USDGBP'', 3)], None)"
  by (simp add: GetRates_def GetLatestRates_def SendOpenHTTPRequest_def send0_def encode0_def
      fixer0_def fixer_levels fixerAPI_def fixerAPISSL_def fixerAPILatest_def)

lemma GetLatestRates0:
  "fst (snd (GetLatestRates encode0 send0 (fixer0 lvl) ''USD'' ''USD,GBP'')) =
     Some [(''USD'', 2), (''GBP'', 3)]"
  by (simp add: GetLatestRates_def SendOpenHTTPRequest_def send0_def Let_def split: prod.splits)

text \<open>C9 on the free tier and on the basic tier, base currency \<open>USD\<close>.\<close>

theorem C9_GetRates_keys_witness:
  "(\<exists>m. fst (snd (GetRates encode0 send0 (fixer0 0) ''USD'' ''USD,GBP'')) = Some m \<and>
        fst ` set m = {''EURUSD'', ''EURGBP''}) \<and>
   (\<exists>m. fst (snd (GetRates encode0 send0 (fixer0 1) ''USD'' ''USD,GBP'')) = Some m \<and>
        fst ` set m = {''USDUSD'', ''USDGBP''})"
proof -
  have l0: "APIKeyLvl (fixer0 0) = fixerAPIFree" and l1: "APIKeyLvl (fixer0 1) \<noteq> fixerAPIFree"
    by (simp_all add: fixer0_def fixer_levels)
  from C9_GetRates_keys [OF GetRates_free0]
  have a: "\<exists>m. fst (snd (GetRates encode0 send0 (fixer0 0) ''USD'' ''USD,GBP'')) = Some m \<and>
        fst ` set m = {''EURUSD'', ''EURGBP''}"
    by (simp add: GetRates_free0 GetLatestRates0 l0)
  from C9_GetRates_keys [OF GetRates_basic0]
  have b: "\<exists>m. fst (snd (GetRates encode0 send0 (fixer0 1) ''USD'' ''USD,GBP'')) = Some m \<and>
        fst ` set m = {''USDUSD'', ''USDGBP''}"
    by (simp add: GetRates_basic0 GetLatestRates0 l1)
  show ?thesis using a b by (rule conjI)
qed

section \<open>Facts about the migration engine of the specification\<close>

lemma succeeded_up_snoc: "succeeded_up A (h @ [ev]) = replay A ev (succeeded_up A h)"
  by (simp add: succeeded_up_def)

lemma GetApplied_RecordApplied:
  "RecordApplied v t l = Inr l' \<Longrightarrow> set (GetApplied l') = insert v (set (GetApplied l))"
  by (auto simp: RecordApplied_def GetApplied_def split: if_splits)

lemma GetApplied_RecordRolledBack:
  "RecordRolledBack v l = Inr l' \<Longrightarrow> set (GetApplied l') = set (GetApplied l) - {v}"
  by (auto simp: RecordRolledBack_def GetApplied_def split: if_splits)

lemma run_step_cases:
  obtains (script_failed) err db' where
      "execute A (script_of (fst st) (snd st)) (database s) = ScriptFailed err db'"
      "run_step A s st =
         (Some (ExecutionError (version (fst st)) err),
          s\<lparr>database := (if supportsTransactionalDDL A then database s else db'),
            clock := Suc (clock s),
            history := history s @ [\<lparr>ev_migration = fst st, ev_direction = snd st,
                                    ev_before = database s, ev_outcome = ScriptError\<rparr>]\<rparr>)"
  | (ledger_failed) e db' where
      "execute A (script_of (fst st) (snd st)) (database s) = ScriptOk db'"
      "record_step (snd st) (version (fst st)) (clock s) (ledger s) = Inl e"
      "run_step A s st =
         (Some e,
          s\<lparr>database := (if supportsTransactionalDDL A then database s else db'),
            clock := Suc (clock s),
            history := history s @ [\<lparr>ev_migration = fst st, ev_direction = snd st,
                                    ev_before = database s, ev_outcome = LedgerError\<rparr>]\<rparr>)"
  | (committed) l' db' where
      "execute A (script_of (fst st) (snd st)) (database s) = ScriptOk db'"
      "record_step (snd st) (version (fst st)) (clock s) (ledger s) = Inr l'"
      "run_step A s st =
         (None,
          s\<lparr>database := db', ledger := l', clock := Suc (clock s),
            history := history s @ [\<lparr>ev_migration = fst st, ev_direction = snd st,
                                    ev_before = database s, ev_outcome = Committed\<rparr>]\<rparr>)"
proof (cases "execute A (script_of (fst st) (snd st)) (database s)")
  case (ScriptFailed err db')
  then show ?thesis using script_failed by (simp add: run_step_def Let_def)
next
  case (ScriptOk db')
  show ?thesis
  proof (cases "record_step (snd st) (version (fst st)) (clock s) (ledger s)")
    case (Inl e)
    then show ?thesis using ScriptOk ledger_failed by (simp add: run_step_def Let_def)
  next
    case (Inr l')
    then show ?thesis using ScriptOk committed by (simp add: run_step_def Let_def)
  qed
qed

lemma run_step_event:
  obtains out where
    "history (snd (run_step A s st)) =
       history s @ [\<lparr>ev_migration = fst st, ev_direction = snd st, ev_before = database s,
                     ev_outcome = out\<rparr>]"
    "step_succeeded A \<lparr>ev_migration = fst st, ev_direction = snd st, ev_before = database s,
                       ev_outcome = out\<rparr> \<longleftrightarrow> fst (run_step A s st) = None"
    "database (snd (run_step A s st)) =
       db_after A \<lparr>ev_migration = fst st, ev_direction = snd st, ev_before = database s,
                   ev_outcome = out\<rparr>"
proof (cases rule: run_step_cases [of A st s])
  case (script_failed err db')
  then show ?thesis
    using that [of ScriptError]
    by (simp add: step_succeeded_def script_succeeded_def db_after_def)
next
  case (ledger_failed e db')
  then show ?thesis
    using that [of LedgerError]
    by (simp add: step_succeeded_def script_succeeded_def db_after_def)
next
  case (committed l' db')
  then show ?thesis
    using that [of Committed]
    by (simp add: step_succeeded_def script_succeeded_def db_after_def)
qed

lemma run_step_invariant:
  assumes "set (GetApplied (ledger s)) = succeeded_up A (history s)"
  shows "set (GetApplied (ledger (snd (run_step A s st)))) =
         succeeded_up A (history (snd (run_step A s st)))"
proof (cases rule: run_step_cases [of A st s])
  case (script_failed err db')
  then show ?thesis
    using assms by (simp add: succeeded_up_snoc step_succeeded_def script_succeeded_def)
next
  case (ledger_failed e db')
  then show ?thesis
    using assms by (simp add: succeeded_up_snoc step_succeeded_def)
next
  case (committed l' db')
  show ?thesis
  proof (cases "snd st")
    case Up
    then show ?thesis
      using committed assms GetApplied_RecordApplied [of "version (fst st)" "clock s" "ledger s" l']
      by (simp add: succeeded_up_snoc record_step_def step_succeeded_def script_succeeded_def)
  next
    case Down
    then show ?thesis
      using committed assms GetApplied_RecordRolledBack [of "version (fst st)" "ledger s" l']
      by (simp add: succeeded_up_snoc record_step_def step_succeeded_def script_succeeded_def)
  qed
qed

lemma reachable_invariant:
  "reachable A s \<Longrightarrow> set (GetApplied (ledger s)) = succeeded_up A (history s)"
proof (induction rule: reachable.induct)
  case (reach_initial db)
  then show ?case by (simp add: initial_def GetApplied_def succeeded_up_def)
next
  case (reach_step s st)
  show ?case using reach_step.IH by (rule run_step_invariant)
next
  case (reach_lock s b)
  then show ?case by simp
qed

lemma replay_db_append:
  "replay_db A db (xs @ ys) =
     (case replay_db A db xs of None \<Rightarrow> None | Some d \<Rightarrow> replay_db A d ys)"
  by (induction xs arbitrary: db) simp_all

lemma run_step_connected:
  assumes "replay_db A db0 (history s) = Some (database s)"
  shows "replay_db A db0 (history (snd (run_step A s st))) = Some (database (snd (run_step A s st)))"
proof -
  obtain out where
    h: "history (snd (run_step A s st)) =
         history s @ [\<lparr>ev_migration = fst st, ev_direction = snd st, ev_before = database s,
                       ev_outcome = out\<rparr>]" and
    d: "database (snd (run_step A s st)) =
         db_after A \<lparr>ev_migration = fst st, ev_direction = snd st, ev_before = database s,
                     ev_outcome = out\<rparr>"
    by (rule run_step_event)
  show ?thesis
    by (simp add: h d replay_db_append assms)
qed

lemma reachable_connected:
  "reachable A s \<Longrightarrow> \<exists>db0. replay_db A db0 (history s) = Some (database s)"
proof (induction rule: reachable.induct)
  case (reach_initial db)
  have "replay_db A db (history (initial db)) = Some (database (initial db))"
    by (simp add: initial_def)
  then show ?case by (rule exI)
next
  case (reach_step s st)
  from reach_step.IH obtain db0 where "replay_db A db0 (history s) = Some (database s)" ..
  then have "replay_db A db0 (history (snd (run_step A s st))) =
             Some (database (snd (run_step A s st)))"
    by (rule run_step_connected)
  then show ?case by (rule exI)
next
  case (reach_lock s b)
  then show ?case by simp
qed

lemma succeeded_up_has_event:
  "v \<in> succeeded_up A h \<Longrightarrow>
   \<exists>ev \<in> set h. version (ev_migration ev) = v \<and> ev_direction ev = Up \<and> step_succeeded A ev"
proof (induction h rule: rev_induct)
  case Nil
  then show ?case by (simp add: succeeded_up_def)
next
  case (snoc ev h)
  show ?case
  proof (cases "v \<in> succeeded_up A h")
    case True
    then show ?thesis using snoc.IH by auto
  next
    case False
    with snoc.prems have "step_succeeded A ev \<and> ev_direction ev = Up \<and> version (ev_migration ev) = v"
      by (auto simp: succeeded_up_snoc split: if_splits direction.splits)
    then show ?thesis by simp
  qed
qed

lemma execute_plan_events:
  "execute_plan A s plan d = (r, s') \<Longrightarrow>
   \<exists>evs. history s' = history s @ evs \<and>
         replay_db A (database s) evs = Some (database s') \<and>
         map (\<lambda>ev. (ev_migration ev, ev_direction ev)) evs = take (length evs) plan \<and>
         list_all (step_succeeded A) (butlast evs) \<and>
         (case r of
            None \<Rightarrow> length evs = length plan \<and> list_all (step_succeeded A) evs
          | Some x \<Rightarrow> evs \<noteq> [] \<and> \<not> step_succeeded A (last evs))"
proof (induction plan arbitrary: s d)
  case Nil
  then have "r = None" "s' = s" by simp_all
  then show ?case by (intro exI [of _ "[]"]) simp
next
  case (Cons st rest)
  obtain out where out:
      "history (snd (run_step A s st)) =
         history s @ [\<lparr>ev_migration = fst st, ev_direction = snd st, ev_before = database s,
                       ev_outcome = out\<rparr>]"
      "step_succeeded A \<lparr>ev_migration = fst st, ev_direction = snd st, ev_before = database s,
                         ev_outcome = out\<rparr> \<longleftrightarrow> fst (run_step A s st) = None"
      "database (snd (run_step A s st)) =
         db_after A \<lparr>ev_migration = fst st, ev_direction = snd st, ev_before = database s,
                     ev_outcome = out\<rparr>"
    by (rule run_step_event)
  define ev where
    "ev = \<lparr>ev_migration = fst st, ev_direction = snd st, ev_before = database s,
           ev_outcome = out\<rparr>"
  obtain r1 s1 where rs: "run_step A s st = (r1, s1)"
    by (cases "run_step A s st")
  have ev: "history s1 = history s @ [ev]"
      "(ev_migration ev, ev_direction ev) = st" "ev_before ev = database s"
      "step_succeeded A ev \<longleftrightarrow> r1 = None" "database s1 = db_after A ev"
    using out rs by (simp_all add: ev_def)
  show ?case
  proof (cases r1)
    case (Some e)
    then have "r = Some (e, d)" "s' = s1"
      using Cons.prems rs by simp_all
    then show ?thesis
      using ev Some by (intro exI [of _ "[ev]"]) simp
  next
    case None
    then have "execute_plan A s1 rest (Some (version (fst st))) = (r, s')"
      using Cons.prems rs by simp
    from Cons.IH [OF this] obtain evs where evs:
      "history s' = history s1 @ evs"
      "replay_db A (database s1) evs = Some (database s')"
      "map (\<lambda>ev. (ev_migration ev, ev_direction ev)) evs = take (length evs) rest"
      "list_all (step_succeeded A) (butlast evs)"
      "(case r of
          None \<Rightarrow> length evs = length rest \<and> list_all (step_succeeded A) evs
        | Some x \<Rightarrow> evs \<noteq> [] \<and> \<not> step_succeeded A (last evs))"
      by auto
    have c: "step_succeeded A ev" using ev None by simp
    have h: "history s' = history s @ (ev # evs)" using evs(1) ev(1) by simp
    have p: "replay_db A (database s) (ev # evs) = Some (database s')"
      using evs(2) ev(3,5) by simp
    have m: "map (\<lambda>ev. (ev_migration ev, ev_direction ev)) (ev # evs) =
             take (length (ev # evs)) (st # rest)"
      using evs(3) ev(2) by simp
    have b: "list_all (step_succeeded A) (butlast (ev # evs))"
      using evs(4) c by simp
    have k: "(case r of
          None \<Rightarrow> length (ev # evs) = length (st # rest) \<and> list_all (step_succeeded A) (ev # evs)
        | Some x \<Rightarrow> ev # evs \<noteq> [] \<and> \<not> step_succeeded A (last (ev # evs)))"
      using evs(5) c by (cases r) simp_all
    show ?thesis
      using h p m b k by (intro exI [of _ "ev # evs"] conjI)
  qed
qed

lemma Runner_events:
  assumes run: "Runner A sources s c = (r, s')"
  shows "\<exists>evs. history s' = history s @ evs \<and>
         replay_db A (database s) evs = Some (database s') \<and>
         list_all (step_succeeded A) (butlast evs) \<and>
         (case computed_plan sources s c of
            None \<Rightarrow> evs = []
          | Some plan \<Rightarrow>
              map (\<lambda>ev. (ev_migration ev, ev_direction ev)) evs = take (length evs) plan \<and>
              (\<not> is_fatal r \<longrightarrow> length evs = length plan)) \<and>
         (if is_fatal r then evs = [] \<or> \<not> step_succeeded A (last evs)
          else list_all (step_succeeded A) evs)"
    (is "\<exists>evs. ?Q evs")
proof (cases "lock_held s")
  case True
  then have "r = Fatal LockContentionError None" "s' = s"
    using run by (simp_all add: Runner_def)
  then have "?Q []" using True by (simp add: computed_plan_def)
  then show ?thesis by (rule exI)
next
  case unlocked: False
  show ?thesis
  proof (cases "Load c sources")
    case (Inl e)
    then have "r = Fatal e None" "s' = release (s\<lparr>lock_held := True\<rparr>)"
      using run unlocked by (simp_all add: Runner_def)
    then have "?Q []" using unlocked Inl by (simp add: computed_plan_def release_def)
    then show ?thesis by (rule exI)
  next
    case (Inr ms)
    show ?thesis
    proof (cases "c = CmdStatus")
      case True
      then have "\<not> is_fatal r" "s' = release (s\<lparr>lock_held := True\<rparr>)"
        using run unlocked Inr by (auto simp: Runner_def is_fatal_def)
      then have "?Q []"
        using unlocked Inr True by (simp add: computed_plan_def release_def)
      then show ?thesis by (rule exI)
    next
      case ns: False
      show ?thesis
      proof (cases "compute_plan ms (GetApplied (ledger s)) c")
        case (Inl e)
        then have s': "s' = release (s\<lparr>lock_held := True\<rparr>)"
          using run unlocked Inr ns by (simp add: Runner_def Planner_def Let_def split: if_splits)
        have "?Q []"
          using unlocked Inr Inl s' by (simp add: computed_plan_def release_def)
        then show ?thesis by (rule exI)
      next
        case plan: (Inr plan)
        show ?thesis
        proof (cases "plan = []")
          case True
          then have "r = Informational NothingToDoError" "s' = release (s\<lparr>lock_held := True\<rparr>)"
            using run unlocked Inr ns plan by (simp_all add: Runner_def Planner_def)
          then have "?Q []"
            using unlocked Inr plan True
            by (simp add: computed_plan_def release_def is_fatal_def)
          then show ?thesis by (rule exI)
        next
          case False
          obtain q s2 where ex: "execute_plan A (s\<lparr>lock_held := True\<rparr>) plan None = (q, s2)"
            by (cases "execute_plan A (s\<lparr>lock_held := True\<rparr>) plan None")
          have s': "s' = release s2"
            using run unlocked Inr ns plan False ex
            by (cases q) (auto simp: Runner_def Planner_def)
          have r: "is_fatal r \<longleftrightarrow> q \<noteq> None"
            using run unlocked Inr ns plan False ex
            by (cases q) (auto simp: Runner_def Planner_def is_fatal_def)
          have cp: "computed_plan sources s c = Some plan"
            using unlocked Inr plan by (simp add: computed_plan_def)
          from execute_plan_events [OF ex] obtain evs where evs:
            "history s2 = history s @ evs"
            "replay_db A (database s) evs = Some (database s2)"
            "map (\<lambda>ev. (ev_migration ev, ev_direction ev)) evs = take (length evs) plan"
            "list_all (step_succeeded A) (butlast evs)"
            "(case q of
                None \<Rightarrow> length evs = length plan \<and> list_all (step_succeeded A) evs
              | Some x \<Rightarrow> evs \<noteq> [] \<and> \<not> step_succeeded A (last evs))"
            by auto
          have "?Q evs"
            using evs s' r cp by (cases q) (simp_all add: release_def)
          then show ?thesis by (rule exI)
        qed
      qed
    qed
  qed
qed

lemma Run_events:
  assumes run: "Run A sources s c = (r, s')"
  shows "\<exists>evs. history s' = history s @ evs \<and>
         replay_db A (database s) evs = Some (database s') \<and>
         list_all (step_succeeded A) (butlast evs) \<and>
         (case computed_plan sources s c of
            None \<Rightarrow> evs = []
          | Some plan \<Rightarrow>
              map (\<lambda>ev. (ev_migration ev, ev_direction ev)) evs = take (length evs) plan \<and>
              (\<not> is_fatal r \<longrightarrow> length evs = length plan)) \<and>
         (if is_fatal r then evs = [] \<or> \<not> step_succeeded A (last evs)
          else list_all (step_succeeded A) evs)"
    (is "\<exists>evs. ?Q evs")
proof (cases "\<exists>n. c = CmdCreate n")
  case True
  then obtain n where c: "c = CmdCreate n" ..
  then have rs: "\<not> is_fatal r" "s' = s"
    using run by (auto simp: Run_def is_fatal_def)
  have "case computed_plan sources s c of None \<Rightarrow> True | Some plan \<Rightarrow> plan = []"
    by (simp add: c computed_plan_def split: sum.splits)
  then have "?Q []" using rs by (simp split: option.splits)
  then show ?thesis by (rule exI)
next
  case False
  then have "Runner A sources s c = (r, s')"
    using run by (cases c) (simp_all add: Run_def)
  then show ?thesis by (rule Runner_events)
qed

lemma reachable_execute_plan:
  "reachable A s \<Longrightarrow> reachable A (snd (execute_plan A s plan d))"
proof (induction plan arbitrary: s d)
  case Nil
  then show ?case by simp
next
  case (Cons st rest)
  obtain r1 s1 where rs: "run_step A s st = (r1, s1)"
    by (cases "run_step A s st")
  have step: "reachable A s1"
    using reach_step [OF Cons.prems, of st] rs by simp
  show ?case
  proof (cases r1)
    case (Some e)
    then show ?thesis using step rs by simp
  next
    case None
    then show ?thesis using Cons.IH [OF step] rs by simp
  qed
qed

lemma reachable_release: "reachable A s \<Longrightarrow> reachable A (release s)"
  unfolding release_def by (rule reach_lock)

lemma Runner_state:
  "snd (Runner A sources s c) = s \<or>
   snd (Runner A sources s c) = release (s\<lparr>lock_held := True\<rparr>) \<or>
   (\<exists>plan. snd (Runner A sources s c) =
            release (snd (execute_plan A (s\<lparr>lock_held := True\<rparr>) plan None)))"
proof (cases "lock_held s")
  case True
  then show ?thesis by (simp add: Runner_def)
next
  case unlocked: False
  show ?thesis
  proof (cases "Load c sources")
    case (Inl e)
    then show ?thesis using unlocked by (simp add: Runner_def)
  next
    case (Inr ms)
    show ?thesis
    proof (cases "c = CmdStatus")
      case True
      then show ?thesis using unlocked Inr by (simp add: Runner_def)
    next
      case ns: False
      show ?thesis
      proof (cases "Planner ms (GetApplied (ledger s)) c")
        case (Inl e)
        then show ?thesis using unlocked Inr ns by (simp add: Runner_def Let_def)
      next
        case (Inr plan)
        obtain q s2 where ex: "execute_plan A (s\<lparr>lock_held := True\<rparr>) plan None = (q, s2)"
          by (cases "execute_plan A (s\<lparr>lock_held := True\<rparr>) plan None")
        have "snd (Runner A sources s c) = release s2"
          using unlocked \<open>Load c sources = Inr ms\<close> ns Inr ex
          by (cases q) (auto simp: Runner_def)
        then have "snd (Runner A sources s c) =
                   release (snd (execute_plan A (s\<lparr>lock_held := True\<rparr>) plan None))"
          using ex by simp
        then show ?thesis by blast
      qed
    qed
  qed
qed

lemma Run_state:
  "snd (Run A sources s c) = s \<or> snd (Run A sources s c) = snd (Runner A sources s c)"
  by (cases c) (simp_all add: Run_def)

lemma reachable_Run:
  assumes "reachable A s"
  shows "reachable A (snd (Run A sources s c))"
proof -
  have l: "reachable A (s\<lparr>lock_held := True\<rparr>)"
    using assms by (rule reach_lock)
  have r: "reachable A (release (s\<lparr>lock_held := True\<rparr>))"
    using l by (rule reachable_release)
  have x: "reachable A (release (snd (execute_plan A (s\<lparr>lock_held := True\<rparr>) plan None)))"
    for plan
    using reachable_execute_plan [OF l] by (rule reachable_release)
  have "reachable A (snd (Runner A sources s c))"
    using Runner_state [of A sources s c] assms r x by auto
  then show ?thesis
    using Run_state [of A sources s c] assms by auto
qed

lemma run_step_up_committed:
  assumes "run_step A s (m, Up) = (None, s1)"
  shows "set (GetApplied (ledger s1)) = insert (version m) (set (GetApplied (ledger s)))"
proof (cases rule: run_step_cases [of A "(m, Up)" s])
  case (script_failed err db')
  then show ?thesis using assms by simp
next
  case (ledger_failed e db')
  then show ?thesis using assms by simp
next
  case (committed l' db')
  then have "RecordApplied (version m) (clock s) (ledger s) = Inr l'" "ledger s1 = l'"
    using assms by (simp_all add: record_step_def)
  then show ?thesis using GetApplied_RecordApplied by simp
qed

lemma execute_plan_all_up:
  "execute_plan A s (steps Up ps) d = (None, s') \<Longrightarrow>
   set (GetApplied (ledger s')) = set (GetApplied (ledger s)) \<union> version ` set ps"
proof (induction ps arbitrary: s d)
  case Nil
  then show ?case by (simp add: steps_def)
next
  case (Cons m ps)
  obtain r1 s1 where rs: "run_step A s (m, Up) = (r1, s1)"
    by (cases "run_step A s (m, Up)")
  have r1: "r1 = None"
    using Cons.prems rs by (cases r1) (simp_all add: steps_def)
  then have "execute_plan A s1 (steps Up ps) (Some (version m)) = (None, s')"
    using Cons.prems rs by (simp add: steps_def)
  from Cons.IH [OF this] run_step_up_committed [OF rs [unfolded r1]]
  show ?case by simp
qed

lemma pending_after_all:
  assumes "set (GetApplied l') = set (GetApplied l) \<union> version ` set (pending ms (GetApplied l))"
  shows "pending ms (GetApplied l') = []"
  unfolding pending_def filter_empty_conv
proof
  fix m assume m: "m \<in> set ms"
  show "\<not> version m \<notin> set (GetApplied l')"
  proof (cases "version m \<in> set (GetApplied l)")
    case True
    then show ?thesis using assms by simp
  next
    case False
    then have "m \<in> set (pending ms (GetApplied l))" using m by (simp add: pending_def)
    then show ?thesis using assms by blast
  qed
qed

lemma Runner_up_not_fatal:
  assumes run: "Runner A sources s CmdUp = (r1, s1)" and ok: "\<not> is_fatal r1"
  obtains ms where "Load CmdUp sources = Inr ms" "\<not> lock_held s1"
    "pending ms (GetApplied (ledger s1)) = []" "s1\<lparr>lock_held := False\<rparr> = s1"
proof -
  have unlocked: "\<not> lock_held s"
    using run ok by (auto simp: Runner_def is_fatal_def)
  obtain ms where ms: "Load CmdUp sources = Inr ms"
    using run ok unlocked by (cases "Load CmdUp sources") (auto simp: Runner_def is_fatal_def)
  let ?plan = "steps Up (pending ms (GetApplied (ledger s)))"
  show thesis
  proof (cases "?plan = []")
    case True
    then have s1: "s1 = release (s\<lparr>lock_held := True\<rparr>)"
      using run unlocked ms by (simp add: Runner_def Planner_def)
    have "pending ms (GetApplied (ledger s1)) = []"
      using True s1 by (simp add: release_def steps_def)
    then show ?thesis using that [OF ms] s1 by (simp add: release_def)
  next
    case False
    obtain q s2 where ex: "execute_plan A (s\<lparr>lock_held := True\<rparr>) ?plan None = (q, s2)"
      by (cases "execute_plan A (s\<lparr>lock_held := True\<rparr>) ?plan None")
    have q: "q = None"
      using run ok unlocked ms False ex
      by (cases q) (auto simp: Runner_def Planner_def is_fatal_def)
    have s1: "s1 = release s2"
      using run unlocked ms False ex q by (simp add: Runner_def Planner_def)
    have "set (GetApplied (ledger s2)) =
          set (GetApplied (ledger s)) \<union> version ` set (pending ms (GetApplied (ledger s)))"
      using execute_plan_all_up [OF ex [unfolded q]] by simp
    then have "pending ms (GetApplied (ledger s2)) = []"
      by (rule pending_after_all)
    then show ?thesis using that [OF ms] s1 by (simp add: release_def)
  qed
qed

text \<open>
  C7 fails as stated on the engine of the specification. From the empty ledger, with the
  up-script of version 3 failing, the first \<open>up\<close> stops with the ledger at versions 1 and
  2, and the plan of the second \<open>up\<close> is the step for version 3, not the empty plan.
\<close>

theorem C7_second_plan_not_empty_after_failure:
  "fst (Run adapter0 sources0 engine0 CmdUp) =
     Fatal (ExecutionError 3 ''syntax error'') (Some 2) \<and>
   GetApplied (ledger (snd (Run adapter0 sources0 engine0 CmdUp))) = [1, 2] \<and>
   computed_plan sources0 (snd (Run adapter0 sources0 engine0 CmdUp)) CmdUp =
     Some [(mig 3, Up)]"
  by (simp add: Run_def Runner_def Load_def Planner_def pending_def steps_def run_step_def
      script_of_def record_step_def RecordApplied_def GetApplied_def release_def initial_def
      engine0_def computed_plan_def sources0_def adapter0_def mig_def)

text \<open>
  C7, as amended. From any starting state, when the first \<open>up\<close> ends without a fatal
  error, the plan computed by the second \<open>up\<close> is empty and the second run leaves the
  state, the ledger with it, as the first run left it.
\<close>

theorem C7_up_twice_after_success:
  assumes "Run A sources s CmdUp = (r1, s1)" and "\<not> is_fatal r1"
  shows "computed_plan sources s1 CmdUp = Some [] \<and>
         Run A sources s1 CmdUp = (Informational NothingToDoError, s1)"
proof -
  have "Runner A sources s CmdUp = (r1, s1)"
    using assms(1) by (simp add: Run_def)
  from Runner_up_not_fatal [OF this assms(2)] obtain ms where
    ms: "Load CmdUp sources = Inr ms" and l: "\<not> lock_held s1" and
    p: "pending ms (GetApplied (ledger s1)) = []" and e: "s1\<lparr>lock_held := False\<rparr> = s1"
    by blast
  have 1: "computed_plan sources s1 CmdUp = Some []"
    using ms l p by (simp add: computed_plan_def steps_def)
  have 2: "Run A sources s1 CmdUp = (Informational NothingToDoError, s1)"
    using ms l p e by (simp add: Run_def Runner_def Planner_def steps_def release_def)
  show ?thesis using 1 2 by (rule conjI)
qed


lemmas engine_eval = Run_def Runner_def Load_def Planner_def pending_def steps_def run_step_def
  script_of_def record_step_def RecordApplied_def RecordRolledBack_def GetApplied_def
  release_def initial_def engine0_def computed_plan_def sources0_def adapter0_def adapter1_def mig_def

text \<open>C7, as amended, at three migrations whose scripts all succeed.\<close>

theorem C7_up_twice_after_success_witness:
  "fst (Run adapter1 sources0 engine0 CmdUp) = RunOk \<and>
   GetApplied (ledger (snd (Run adapter1 sources0 engine0 CmdUp))) = [1, 2, 3] \<and>
   computed_plan sources0 (snd (Run adapter1 sources0 engine0 CmdUp)) CmdUp = Some [] \<and>
   Run adapter1 sources0 (snd (Run adapter1 sources0 engine0 CmdUp)) CmdUp =
     (Informational NothingToDoError, snd (Run adapter1 sources0 engine0 CmdUp))"
proof -
  have ok: "fst (Run adapter1 sources0 engine0 CmdUp) = RunOk"
    by (simp add: engine_eval)
  have l: "GetApplied (ledger (snd (Run adapter1 sources0 engine0 CmdUp))) = [1, 2, 3]"
    by (simp add: engine_eval)
  have h1: "Run adapter1 sources0 engine0 CmdUp =
            (fst (Run adapter1 sources0 engine0 CmdUp),
             snd (Run adapter1 sources0 engine0 CmdUp))"
    by simp
  have h2: "\<not> is_fatal (fst (Run adapter1 sources0 engine0 CmdUp))"
    by (simp add: ok is_fatal_def)
  show ?thesis
    using C7_up_twice_after_success [OF h1 h2] ok l by blast
qed

text \<open>
  C6, on the engine of the specification. In every reachable state, the states in the
  middle of a failing run among them, the versions in the ledger are exactly those whose
  up-script has fully succeeded and has not been rolled back since; each of them has a
  committed up step in the record of executions whose up-script the adapter ran with
  success; the record is connected and ends in the database of the state; and a run of
  the engine leads from reachable states to reachable states. The steps that a run of
  the engine executes are a prefix of the plan it computed, in its order; every step
  before the last one executed fully succeeded, so that nothing is executed after a step
  that fails; a run that is not fatal has executed its whole plan with success, and a
  fatal run that has executed a step has failed at the last step it executed.
\<close>

theorem C6_ledger_invariant_and_abort:
  "(reachable A s \<longrightarrow>
      set (GetApplied (ledger s)) = succeeded_up A (history s) \<and>
      (\<forall>v \<in> set (GetApplied (ledger s)).
         \<exists>ev \<in> set (history s).
           version (ev_migration ev) = v \<and> ev_direction ev = Up \<and>
           (\<exists>db'. execute A (upScript (ev_migration ev)) (ev_before ev) = ScriptOk db') \<and>
           ev_outcome ev = Committed) \<and>
      (\<exists>db0. replay_db A db0 (history s) = Some (database s)) \<and>
      reachable A (snd (Run A sources s c))) \<and>
   (Run A sources s c = (r, s') \<longrightarrow>
      (\<exists>evs. history s' = history s @ evs \<and>
         replay_db A (database s) evs = Some (database s') \<and>
         list_all (step_succeeded A) (butlast evs) \<and>
         (case computed_plan sources s c of
            None \<Rightarrow> evs = []
          | Some plan \<Rightarrow>
              map (\<lambda>ev. (ev_migration ev, ev_direction ev)) evs = take (length evs) plan \<and>
              (\<not> is_fatal r \<longrightarrow> length evs = length plan)) \<and>
         (if is_fatal r then evs = [] \<or> \<not> step_succeeded A (last evs)
          else list_all (step_succeeded A) evs)))"
proof (intro conjI impI)
  assume re: "reachable A s"
  show inv: "set (GetApplied (ledger s)) = succeeded_up A (history s)"
    using re by (rule reachable_invariant)
  show "\<forall>v \<in> set (GetApplied (ledger s)).
         \<exists>ev \<in> set (history s).
           version (ev_migration ev) = v \<and> ev_direction ev = Up \<and>
           (\<exists>db'. execute A (upScript (ev_migration ev)) (ev_before ev) = ScriptOk db') \<and>
           ev_outcome ev = Committed"
  proof
    fix v assume "v \<in> set (GetApplied (ledger s))"
    then have "v \<in> succeeded_up A (history s)" using inv by simp
    from succeeded_up_has_event [OF this] obtain ev where ev:
      "ev \<in> set (history s)" "version (ev_migration ev) = v" "ev_direction ev = Up"
      "step_succeeded A ev"
      by auto
    have "\<exists>db'. execute A (upScript (ev_migration ev)) (ev_before ev) = ScriptOk db'"
      using ev(3,4)
      by (cases "execute A (upScript (ev_migration ev)) (ev_before ev)")
         (simp_all add: step_succeeded_def script_succeeded_def script_of_def)
    moreover have "ev_outcome ev = Committed"
      using ev(4) by (simp add: step_succeeded_def)
    ultimately show "\<exists>ev \<in> set (history s).
           version (ev_migration ev) = v \<and> ev_direction ev = Up \<and>
           (\<exists>db'. execute A (upScript (ev_migration ev)) (ev_before ev) = ScriptOk db') \<and>
           ev_outcome ev = Committed"
      using ev(1,2,3) by (intro bexI [of _ ev] conjI)
  qed
  show "\<exists>db0. replay_db A db0 (history s) = Some (database s)"
    using re by (rule reachable_connected)
  show "reachable A (snd (Run A sources s c))"
    using re by (rule reachable_Run)
next
  assume "Run A sources s c = (r, s')"
  then show "\<exists>evs. history s' = history s @ evs \<and>
         replay_db A (database s) evs = Some (database s') \<and>
         list_all (step_succeeded A) (butlast evs) \<and>
         (case computed_plan sources s c of
            None \<Rightarrow> evs = []
          | Some plan \<Rightarrow>
              map (\<lambda>ev. (ev_migration ev, ev_direction ev)) evs = take (length evs) plan \<and>
              (\<not> is_fatal r \<longrightarrow> length evs = length plan)) \<and>
         (if is_fatal r then evs = [] \<or> \<not> step_succeeded A (last evs)
          else list_all (step_succeeded A) evs)"
    by (rule Run_events)
qed

text \<open>
  C6 at a run of \<open>up\<close> over three migrations from the empty ledger, the up-script of
  the third failing, and at the state that the run ends in.
\<close>

theorem C6_ledger_invariant_and_abort_witness:
  "reachable adapter0 (snd (Run adapter0 sources0 engine0 CmdUp)) \<and>
   GetApplied (ledger (snd (Run adapter0 sources0 engine0 CmdUp))) = [1, 2] \<and>
   set (GetApplied (ledger (snd (Run adapter0 sources0 engine0 CmdUp)))) =
     succeeded_up adapter0 (history (snd (Run adapter0 sources0 engine0 CmdUp))) \<and>
   fst (Run adapter0 sources0 engine0 CmdUp) =
     Fatal (ExecutionError 3 ''syntax error'') (Some 2) \<and>
   (\<exists>evs. history (snd (Run adapter0 sources0 engine0 CmdUp)) = history engine0 @ evs \<and>
      map (\<lambda>ev. version (ev_migration ev)) evs = [1, 2, 3] \<and>
      list_all (step_succeeded adapter0) (butlast evs) \<and>
      \<not> step_succeeded adapter0 (last evs))"
proof -
  let ?R = "Run adapter0 sources0 engine0 CmdUp"
  note t0 = C6_ledger_invariant_and_abort
              [where A = adapter0 and s = engine0 and sources = sources0 and c = CmdUp
                 and r = "fst ?R" and s' = "snd ?R"]
  note t1 = C6_ledger_invariant_and_abort
              [where A = adapter0 and s = "snd ?R" and sources = sources0 and c = CmdUp
                 and r = "fst ?R" and s' = "snd ?R"]
  have re0: "reachable adapter0 engine0"
    unfolding engine0_def by (rule reach_initial)
  have re1: "reachable adapter0 (snd ?R)"
    using t0 [THEN conjunct1, THEN mp, OF re0] by simp
  have inv: "set (GetApplied (ledger (snd ?R))) = succeeded_up adapter0 (history (snd ?R))"
    using t1 [THEN conjunct1, THEN mp, OF re1] by (rule conjunct1)
  have l: "GetApplied (ledger (snd ?R)) = [1, 2]"
    by (simp add: engine_eval)
  have r: "fst ?R = Fatal (ExecutionError 3 ''syntax error'') (Some 2)"
    by (simp add: engine_eval)
  have h: "map (\<lambda>ev. version (ev_migration ev)) (history (snd ?R)) = [1, 2, 3]"
    by (simp add: engine_eval)
  have h0: "history engine0 = []"
    by (simp add: engine0_def initial_def)
  have x: "?R = (fst ?R, snd ?R)" by simp
  have "\<exists>evs. history (snd ?R) = history engine0 @ evs \<and>
      map (\<lambda>ev. version (ev_migration ev)) evs = [1, 2, 3] \<and>
      list_all (step_succeeded adapter0) (butlast evs) \<and>
      \<not> step_succeeded adapter0 (last evs)"
    using t0 [THEN conjunct2, THEN mp, OF x]
  proof (rule exE)
    fix evs
    assume full: "history (snd ?R) = history engine0 @ evs \<and>
         replay_db adapter0 (database engine0) evs = Some (database (snd ?R)) \<and>
         list_all (step_succeeded adapter0) (butlast evs) \<and>
         (case computed_plan sources0 engine0 CmdUp of
            None \<Rightarrow> evs = []
          | Some plan \<Rightarrow>
              map (\<lambda>ev. (ev_migration ev, ev_direction ev)) evs = take (length evs) plan \<and>
              (\<not> is_fatal (fst ?R) \<longrightarrow> length evs = length plan)) \<and>
         (if is_fatal (fst ?R) then evs = [] \<or> \<not> step_succeeded adapter0 (last evs)
          else list_all (step_succeeded adapter0) evs)"
    have e1: "history (snd ?R) = history engine0 @ evs"
      using full by (rule conjunct1)
    have e2: "map (\<lambda>ev. version (ev_migration ev)) evs = [1, 2, 3]"
      using e1 h h0 by simp
    have e3: "list_all (step_succeeded adapter0) (butlast evs)"
      using full by simp
    have ne: "evs \<noteq> []" using e2 by auto
    have "is_fatal (fst ?R)" by (simp add: r is_fatal_def)
    then have e4: "\<not> step_succeeded adapter0 (last evs)"
      using full ne by simp
    show ?thesis
      using e1 e2 e3 e4 by (intro exI [of _ evs] conjI)
  qed
  then show ?thesis using re1 inv l r by (intro conjI)
qed

end
